theory Spec2Isabelle
  imports Main "HOL-Library.Sublist"
begin

section \<open>Flamenco job types BeFrames_BlenderPath and BeFrames_RootBased\<close>

text \<open>
  The two job types are JavaScript files run by the Flamenco manager.  Each
  defines \<^verbatim>\<open>compileJob\<close>, \<^verbatim>\<open>renderOutputPath\<close> and
  \<^verbatim>\<open>authorRenderTasks\<close>; the text of the last two is the same in both files,
  and \<^verbatim>\<open>compileJob\<close> differs by the check of the render output root.

  JavaScript strings are modelled as \<^typ>\<open>string\<close>, one \<^typ>\<open>char\<close> for each
  UTF-16 code unit below 256.  A \<^verbatim>\<open>throw\<close> is a value of type \<open>error\<close>.
\<close>

subsection \<open>Errors\<close>

text \<open>
  \<open>UnsupportedFormat\<close> is the throw of
  \<^verbatim>\<open>"Video formats are not supported by this job type (image sequences only)."\<close>,
  \<open>MissingRequiredSetting\<close> the throw of
  \<^verbatim>\<open>"Render Output Root is required for the RootBased job type."\<close>.
  The other two are the failures of the manager's frame chunker.
\<close>

datatype error =
    UnsupportedFormat
  | MissingRequiredSetting
  | MalformedFrameRange
  | InvalidChunkSize

subsection \<open>Data\<close>

text \<open>
  The settings of a job, one field for each key of \<^verbatim>\<open>JOB_TYPE.settings\<close>.
  \<^verbatim>\<open>render_output_root\<close> and \<^verbatim>\<open>add_path_components\<close> exist in
  BeFrames_RootBased only; BeFrames_BlenderPath never reads them.  A setting the
  code tests for truthiness is an option: \<open>None\<close> is \<^verbatim>\<open>undefined\<close>.
\<close>

record settings =
  frames :: string
  chunk_size :: int
  render_output_root :: "string option"
  add_path_components :: int
  force_overwrite :: bool
  stable_directory :: bool
  render_output_path :: string
  blendfile :: string
  scene :: "string option"
  format :: string
  image_file_extension :: string

text \<open>The second argument of \<^verbatim>\<open>author.Command\<close>.\<close>

record parameters =
  exe :: string
  exeArgs :: string
  param_blendfile :: string
  args :: "string list"

text \<open>
  \<^verbatim>\<open>author.Command(name, parameters, count)\<close> and
  \<^verbatim>\<open>author.Task(name, type)\<close> build plain values; \<^verbatim>\<open>task.addCommand\<close>
  appends to the commands of the task.
\<close>

record command =
  command_name :: string
  command_parameters :: parameters
  command_frames :: nat

record task =
  task_name :: string
  task_type :: string
  commands :: "command list"

definition author_Command :: "string \<Rightarrow> parameters \<Rightarrow> nat \<Rightarrow> command" where
  "author_Command n ps k =
     \<lparr>command_name = n, command_parameters = ps, command_frames = k\<rparr>"

definition author_Task :: "string \<Rightarrow> string \<Rightarrow> task" where
  "author_Task n ty = \<lparr>task_name = n, task_type = ty, commands = []\<rparr>"

definition addCommand :: "task \<Rightarrow> command \<Rightarrow> task" where
  "addCommand t c = t\<lparr>commands := commands t @ [c]\<rparr>"

text \<open>
  The job object.  The code reads \<^verbatim>\<open>job.settings\<close> and \<^verbatim>\<open>job.created\<close>,
  writes \<^verbatim>\<open>settings.render_output_path\<close> and calls \<^verbatim>\<open>job.addTask\<close>, which
  appends to the tasks of the job.  The creation time is a number of seconds.
\<close>

record job =
  job_name :: string
  priority :: int
  created :: int
  job_settings :: settings
  tasks :: "task list"

definition addTask :: "job \<Rightarrow> task \<Rightarrow> job" where
  "addTask j t = j\<lparr>tasks := tasks j @ [t]\<rparr>"

text \<open>
  The functions the manager provides to a job type and that are not part of
  the two files: they are parameters of the model.
\<close>

record host =
  formatTimestampLocal :: "int \<Rightarrow> string"
  frameChunker :: "string \<Rightarrow> int \<Rightarrow> error + string list"
  frameCount :: "string \<Rightarrow> error + nat"
  path_dirname :: "string \<Rightarrow> string"
  path_basename :: "string \<Rightarrow> string"
  path_join :: "string \<Rightarrow> string \<Rightarrow> string"

subsection \<open>renderOutputPath\<close>

text \<open>
  \<^verbatim>\<open>p.replace(/{([^}]+)}/g, (match, key) => ...)\<close> scans \<open>p\<close> from the left.
  At a \<open>{\<close> the pattern matches when a non-empty run of characters other than
  \<open>}\<close> is followed by \<open>}\<close>; the run is the key, the callback's result replaces
  the match and the scan goes on behind the \<open>}\<close>.  Elsewhere the character is
  copied.
\<close>

definition placeholder_key :: "string \<Rightarrow> string" where
  "placeholder_key cs = takeWhile (\<lambda>c. c \<noteq> CHR ''}'') cs"

definition after_key :: "string \<Rightarrow> string" where
  "after_key cs = dropWhile (\<lambda>c. c \<noteq> CHR ''}'') cs"

lemma length_after_key: "length (after_key cs) \<le> length cs"
  by (simp add: after_key_def length_dropWhile_le)

function replace_placeholders :: "(string \<Rightarrow> string \<Rightarrow> string) \<Rightarrow> string \<Rightarrow> string" where
  "replace_placeholders f [] = []"
| "replace_placeholders f (c # cs) =
     (if c = CHR ''{'' \<and> placeholder_key cs \<noteq> [] \<and> after_key cs \<noteq> []
      then f (c # placeholder_key cs @ ''}'') (placeholder_key cs)
             @ replace_placeholders f (tl (after_key cs))
      else c # replace_placeholders f cs)"
  by pat_completeness auto
termination
proof (relation "measure (\<lambda>(f, p). length p)")
  show "wf (measure (\<lambda>(f :: string \<Rightarrow> string \<Rightarrow> string, p :: string). length p))"
    by simp
next
  fix f :: "string \<Rightarrow> string \<Rightarrow> string" and c :: char and cs :: string
  assume "c = CHR ''{'' \<and> placeholder_key cs \<noteq> [] \<and> after_key cs \<noteq> []"
  then have "length (tl (after_key cs)) < length (after_key cs)"
    by simp
  with length_after_key [of cs]
  show "((f, tl (after_key cs)), (f, c # cs)) \<in> measure (\<lambda>(f, p). length p)"
    by simp
next
  fix f :: "string \<Rightarrow> string \<Rightarrow> string" and c :: char and cs :: string
  show "((f, cs), (f, c # cs)) \<in> measure (\<lambda>(f, p). length p)"
    by simp
qed

declare replace_placeholders.simps(2) [simp del]

definition renderOutputPath :: "host \<Rightarrow> job \<Rightarrow> string" where
  "renderOutputPath h j =
     replace_placeholders
       (\<lambda>match key. if key = ''timestamp'' then formatTimestampLocal h (created j) else match)
       (render_output_path (job_settings j))"

subsection \<open>authorRenderTasks\<close>

text \<open>
  A string is truthy when it is defined and not empty.
  \<^verbatim>\<open>chunk.replaceAll("-", "..")\<close> rewrites every \<open>-\<close> of the chunk.
\<close>

definition truthy :: "string option \<Rightarrow> bool" where
  "truthy v = (case v of None \<Rightarrow> False | Some s \<Rightarrow> s \<noteq> [])"

definition string_of :: "string option \<Rightarrow> string" where
  "string_of v = (case v of None \<Rightarrow> [] | Some s \<Rightarrow> s)"

definition replaceAll_dash :: "string \<Rightarrow> string" where
  "replaceAll_dash chunk = concat (map (\<lambda>c. if c = CHR ''-'' then ''..'' else [c]) chunk)"

definition baseArgs :: "settings \<Rightarrow> string list" where
  "baseArgs s = (if truthy (scene s) then [''--scene'', string_of (scene s)] else [])"

definition overwrite_script :: string where
  "overwrite_script =
     ''import bpy'' @ [CHR 0x0A]
     @ ''for s in bpy.data.scenes:'' @ [CHR 0x0A]
     @ ''    s.render.use_overwrite = True'' @ [CHR 0x0A]
     @ ''    s.render.use_placeholder = False'' @ [CHR 0x0A]"

definition overwriteArgs :: "settings \<Rightarrow> string list" where
  "overwriteArgs s = (if force_overwrite s then [''--python-expr'', overwrite_script] else [])"

text \<open>The argument list of one chunk's command.\<close>

definition render_args :: "host \<Rightarrow> settings \<Rightarrow> string \<Rightarrow> string \<Rightarrow> string \<Rightarrow> string list" where
  "render_args h s renderDir renderOutput chunk =
     [] @ baseArgs s @ overwriteArgs s
     @ [''--render-output'', path_join h renderDir (path_basename h renderOutput),
        ''--render-format'', format s,
        ''--render-frame'', replaceAll_dash chunk]"

text \<open>
  The body of the loop over the chunks: the task of a chunk, once
  \<^verbatim>\<open>frameCount(chunk)\<close> has returned \<open>k\<close>.
\<close>

definition render_task :: "host \<Rightarrow> settings \<Rightarrow> string \<Rightarrow> string \<Rightarrow> string \<Rightarrow> nat \<Rightarrow> task" where
  "render_task h s renderDir renderOutput chunk k =
     addCommand (author_Task (''render-'' @ chunk) ''blender'')
       (author_Command ''blender-render''
          \<lparr>exe = ''{blender}'', exeArgs = ''{blenderArgs}'',
           param_blendfile = blendfile s,
           args = render_args h s renderDir renderOutput chunk\<rparr>
          k)"

text \<open>
  The loop \<^verbatim>\<open>for (const chunk of chunks)\<close>, with the array \<^verbatim>\<open>tasks\<close> as
  accumulator.  A throw of \<^verbatim>\<open>frameCount\<close> leaves the function at once.
\<close>

fun author_loop :: "host \<Rightarrow> settings \<Rightarrow> string \<Rightarrow> string \<Rightarrow> task list \<Rightarrow> string list
    \<Rightarrow> error + task list" where
  "author_loop h s renderDir renderOutput acc [] = Inr acc"
| "author_loop h s renderDir renderOutput acc (chunk # chunks) =
     (case frameCount h chunk of
        Inl e \<Rightarrow> Inl e
      | Inr k \<Rightarrow>
          author_loop h s renderDir renderOutput
            (acc @ [render_task h s renderDir renderOutput chunk k]) chunks)"

definition authorRenderTasks :: "host \<Rightarrow> settings \<Rightarrow> string \<Rightarrow> string \<Rightarrow> error + task list" where
  "authorRenderTasks h s renderDir renderOutput =
     (case frameChunker h (frames s) (chunk_size s) of
        Inl e \<Rightarrow> Inl e
      | Inr chunks \<Rightarrow> author_loop h s renderDir renderOutput [] chunks)"

subsection \<open>compileJob\<close>

definition videoFormats :: "string list" where
  "videoFormats = [''FFMPEG'', ''AVI_RAW'', ''AVI_JPEG'']"

text \<open>
  The lines both files share, from the call of \<^verbatim>\<open>renderOutputPath\<close> to the
  loop over \<^verbatim>\<open>job.addTask\<close>.  The result is the job as the call leaves it and
  the error thrown, if any.
\<close>

definition resolve_and_author :: "host \<Rightarrow> job \<Rightarrow> job \<times> error option" where
  "resolve_and_author h j =
     (let renderOutput = renderOutputPath h j;
          j1 = j\<lparr>job_settings := (job_settings j)\<lparr>render_output_path := renderOutput\<rparr>\<rparr>;
          renderDir = path_dirname h renderOutput
      in case authorRenderTasks h (job_settings j1) renderDir renderOutput of
           Inl e \<Rightarrow> (j1, Some e)
         | Inr ts \<Rightarrow> (foldl addTask j1 ts, None))"

text \<open>\<^verbatim>\<open>compileJob\<close> of BeFrames_BlenderPath.\<close>

definition compileJob_BlenderPath :: "host \<Rightarrow> job \<Rightarrow> job \<times> error option" where
  "compileJob_BlenderPath h j =
     (if format (job_settings j) \<in> set videoFormats then (j, Some UnsupportedFormat)
      else resolve_and_author h j)"

text \<open>
  \<^verbatim>\<open>String.prototype.trim\<close> removes white space at both ends; among the code
  units below 256 these are TAB, LF, VT, FF, CR, SPACE and the no-break space.
\<close>

definition js_whitespace :: "char \<Rightarrow> bool" where
  "js_whitespace c =
     (c \<in> set [CHR 0x09, CHR 0x0A, CHR 0x0B, CHR 0x0C, CHR 0x0D, CHR 0x20, CHR 0xA0])"

definition trim :: "string \<Rightarrow> string" where
  "trim s = rev (dropWhile js_whitespace (rev (dropWhile js_whitespace s)))"

text \<open>
  \<^verbatim>\<open>!settings.render_output_root || `${settings.render_output_root}`.trim() === ""\<close>
\<close>

definition root_missing :: "string option \<Rightarrow> bool" where
  "root_missing r = (\<not> truthy r \<or> trim (string_of r) = [])"

text \<open>\<^verbatim>\<open>compileJob\<close> of BeFrames_RootBased.\<close>

definition compileJob_RootBased :: "host \<Rightarrow> job \<Rightarrow> job \<times> error option" where
  "compileJob_RootBased h j =
     (if format (job_settings j) \<in> set videoFormats then (j, Some UnsupportedFormat)
      else if root_missing (render_output_root (job_settings j))
      then (j, Some MissingRequiredSetting)
      else resolve_and_author h j)"

subsection \<open>Splitting and joining text\<close>

text \<open>
  \<open>split_on sep s\<close> cuts \<open>s\<close> at every \<open>sep\<close>, as \<^verbatim>\<open>s.split(sep)\<close> does;
  \<open>join_with sep ws\<close> puts \<open>sep\<close> between the elements of \<open>ws\<close>.
\<close>

fun split_on :: "char \<Rightarrow> string \<Rightarrow> string list" where
  "split_on sep [] = [[]]"
| "split_on sep (c # cs) =
     (if c = sep then [] # split_on sep cs
      else (case split_on sep cs of [] \<Rightarrow> [[c]] | w # ws \<Rightarrow> (c # w) # ws))"

fun join_with :: "string \<Rightarrow> string list \<Rightarrow> string" where
  "join_with sep [] = []"
| "join_with sep [x] = x"
| "join_with sep (x # y # ys) = x @ sep @ join_with sep (y # ys)"

subsection \<open>The frame chunker\<close>

text \<open>
  \<^verbatim>\<open>frameChunker\<close> and \<^verbatim>\<open>frameCount\<close> are called by
  \<^verbatim>\<open>authorRenderTasks\<close> and defined in neither file.  The definitions of this
  subsection follow section 4.3 of the specification: a frame-range expression
  is a comma-separated list of single numbers and inclusive ranges with
  arbitrary white space; it is parsed into an ordered set of frame numbers,
  which is cut into consecutive groups of at most \<open>chunk_size\<close> frames; each
  group is written back as a compact range expression.
\<close>

text \<open>
  Modelled from the spec: the numbers of a frame-range expression, which the
  chunker reads and writes and the files do not define.  A number is a
  non-empty text of decimal digits.
\<close>

definition digit_of :: "char \<Rightarrow> nat option" where
  "digit_of = map_of (zip ''0123456789'' [0 ..< 10])"

definition show_digit :: "nat \<Rightarrow> char" where
  "show_digit d = ''0123456789'' ! d"

fun parse_digits :: "nat \<Rightarrow> string \<Rightarrow> nat option" where
  "parse_digits acc [] = Some acc"
| "parse_digits acc (c # cs) =
     (case digit_of c of None \<Rightarrow> None | Some d \<Rightarrow> parse_digits (10 * acc + d) cs)"

definition parse_nat :: "string \<Rightarrow> nat option" where
  "parse_nat s = (if s = [] then None else parse_digits 0 s)"

function show_nat :: "nat \<Rightarrow> string" where
  "show_nat n = (if n < 10 then [show_digit n] else show_nat (n div 10) @ [show_digit (n mod 10)])"
  by pat_completeness auto
termination
  by (relation "measure (\<lambda>n. n)") auto

declare show_nat.simps [simp del]

text \<open>
  Modelled from the spec: the frames of the closed interval from \<open>m\<close> to
  \<open>n\<close>, which the chunker's parser builds and the files do not define.
\<close>

definition frames_between :: "nat \<Rightarrow> nat \<Rightarrow> nat list" where
  "frames_between m n = [m ..< Suc n]"

text \<open>
  Modelled from the spec: one token of a frame-range expression, which the
  chunker's parser reads and the files do not define: a single number or an
  inclusive range \<open>m-n\<close> with \<open>m \<le> n\<close>, white space around the token and
  around its numbers being dropped.  Anything else is an unparsable token.
\<close>

definition parse_token :: "string \<Rightarrow> error + nat list" where
  "parse_token t =
     (case split_on CHR ''-'' (trim t) of
        [a] \<Rightarrow>
          (case parse_nat (trim a) of
             None \<Rightarrow> Inl MalformedFrameRange
           | Some n \<Rightarrow> Inr [n])
      | [a, b] \<Rightarrow>
          (case (parse_nat (trim a), parse_nat (trim b)) of
             (Some m, Some n) \<Rightarrow> if m \<le> n then Inr (frames_between m n) else Inl MalformedFrameRange
           | _ \<Rightarrow> Inl MalformedFrameRange)
      | _ \<Rightarrow> Inl MalformedFrameRange)"

fun parse_tokens :: "string list \<Rightarrow> error + nat list" where
  "parse_tokens [] = Inr []"
| "parse_tokens (t # ts) =
     (case parse_token t of
        Inl e \<Rightarrow> Inl e
      | Inr fs \<Rightarrow> (case parse_tokens ts of Inl e \<Rightarrow> Inl e | Inr gs \<Rightarrow> Inr (fs @ gs)))"

text \<open>
  Modelled from the spec: the parser of frame-range expressions, which the
  chunker uses and the files do not define.  It gives the frames of the
  comma-separated tokens in ascending order, each once, and fails on the
  first unparsable token.
\<close>

definition parse_frames :: "string \<Rightarrow> error + nat list" where
  "parse_frames s =
     (case parse_tokens (split_on CHR '','' s) of
        Inl e \<Rightarrow> Inl e
      | Inr fs \<Rightarrow> Inr (sort (remdups fs)))"

text \<open>
  Modelled from the spec: the partition the chunker makes and the files do not
  define: consecutive groups of at most \<open>n\<close> elements, of which only the last
  may be smaller.
\<close>

function chunk_list :: "nat \<Rightarrow> 'a list \<Rightarrow> 'a list list" where
  "chunk_list n xs = (if n = 0 \<or> xs = [] then [] else take n xs # chunk_list n (drop n xs))"
  by pat_completeness auto
termination
  by (relation "measure (\<lambda>(n, xs). length xs)") auto

declare chunk_list.simps [simp del]

text \<open>
  Modelled from the spec: the compact range expression the chunker writes for
  a group and the files do not define: each maximal run of successive frames
  is one token, \<open>start-end\<close> or a single number, and the tokens are separated
  by commas.
\<close>

fun frame_runs :: "nat list \<Rightarrow> (nat \<times> nat) list" where
  "frame_runs [] = []"
| "frame_runs (x # xs) =
     (case frame_runs xs of
        [] \<Rightarrow> [(x, x)]
      | (a, b) # rs \<Rightarrow> if a = Suc x then (x, b) # rs else (x, x) # (a, b) # rs)"

definition show_run :: "nat \<times> nat \<Rightarrow> string" where
  "show_run r = (if fst r = snd r then show_nat (fst r)
                 else show_nat (fst r) @ ''-'' @ show_nat (snd r))"

definition show_frames :: "nat list \<Rightarrow> string" where
  "show_frames xs = join_with '','' (map show_run (frame_runs xs))"

text \<open>
  Modelled from the spec: \<^verbatim>\<open>frameChunker(frames, chunk_size)\<close>, which the files
  call and do not define.  A chunk size of zero or less is invalid; otherwise
  the expression is parsed, the frames are cut into groups and each group is
  written as a range expression.
\<close>

definition frameChunker_spec :: "string \<Rightarrow> int \<Rightarrow> error + string list" where
  "frameChunker_spec fr n =
     (if n \<le> 0 then Inl InvalidChunkSize
      else case parse_frames fr of
             Inl e \<Rightarrow> Inl e
           | Inr fs \<Rightarrow> Inr (map show_frames (chunk_list (nat n) fs)))"

text \<open>
  Modelled from the spec: \<^verbatim>\<open>frameCount(chunk)\<close>, which the files call and do
  not define: the number of frames of a chunk's range expression.
\<close>

definition frameCount_spec :: "string \<Rightarrow> error + nat" where
  "frameCount_spec chunk =
     (case parse_frames chunk of Inl e \<Rightarrow> Inl e | Inr fs \<Rightarrow> Inr (length fs))"

text \<open>A host whose chunker and frame count are the ones of the specification.\<close>

definition spec_chunking :: "host \<Rightarrow> host" where
  "spec_chunking h = h\<lparr>frameChunker := frameChunker_spec, frameCount := frameCount_spec\<rparr>"

subsection \<open>The output path template\<close>

text \<open>
  The setting \<^verbatim>\<open>render_output_path\<close> is computed inside Blender by the
  Python expression of its \<^verbatim>\<open>eval\<close> key, built with \<^verbatim>\<open>pathlib.Path\<close>.
  The expression runs where Blender runs, so \<^verbatim>\<open>Path\<close> is the Windows
  flavour of \<^verbatim>\<open>pathlib\<close> on Windows, as in the examples of the source
  (\<^verbatim>\<open>Z:\FarmRenders\<close>), and the POSIX flavour elsewhere.  Both are modelled,
  after the module \<^verbatim>\<open>pathlib\<close> of CPython 3.11: the separator is \<open>/\<close> on
  POSIX and the backslash on Windows, where \<open>/\<close> is read as a separator too.
\<close>

datatype flavour = Posix | Windows

definition backslash :: char where
  "backslash = CHR 0x5C"

definition path_sep :: "flavour \<Rightarrow> char" where
  "path_sep fl = (case fl of Posix \<Rightarrow> CHR ''/'' | Windows \<Rightarrow> backslash)"

text \<open>\<^verbatim>\<open>part.replace(altsep, sep)\<close>, when the flavour has an \<^verbatim>\<open>altsep\<close>.\<close>

definition replace_altsep :: "flavour \<Rightarrow> string \<Rightarrow> string" where
  "replace_altsep fl s =
     (case fl of Posix \<Rightarrow> s | Windows \<Rightarrow> map (\<lambda>c. if c = CHR ''/'' then backslash else c) s)"

text \<open>
  \<^verbatim>\<open>_PosixFlavour.splitroot\<close>: drive, root and rest of a text.  Two slashes at
  the start are a root of their own; one, three or more are the root \<open>/\<close>.
\<close>

definition splitroot_posix :: "string \<Rightarrow> string \<times> string \<times> string" where
  "splitroot_posix part =
     (if take 1 part = ''/''
      then (let stripped = dropWhile (\<lambda>c. c = CHR ''/'') part
            in if length part - length stripped = 2 then ([], ''//'', stripped)
               else ([], ''/'', stripped))
      else ([], [], part))"

text \<open>
  \<^verbatim>\<open>_WindowsFlavour._split_extended_path\<close>: the prefix \<^verbatim>\<open>\\?\\<close> of an extended
  path, with \<^verbatim>\<open>UNC\<close> behind it if it is there, is taken off.
\<close>

definition split_extended_path :: "string \<Rightarrow> string \<times> string" where
  "split_extended_path s =
     (if prefix [backslash, backslash, CHR ''?'', backslash] s
      then (if prefix (''UNC'' @ [backslash]) (drop 4 s)
            then (take 4 s @ take 3 (drop 4 s), backslash # drop 3 (drop 4 s))
            else (take 4 s, drop 4 s))
      else ([], s))"

definition drive_letters :: "char list" where
  "drive_letters = ''abcdefghijklmnopqrstuvwxyz'' @ ''ABCDEFGHIJKLMNOPQRSTUVWXYZ''"

text \<open>
  \<open>drive_like w\<close>: the text \<open>w\<close> starts with a letter and a colon, which
  \<^verbatim>\<open>_WindowsFlavour.splitroot\<close> reads as a drive.
\<close>

definition drive_like :: "string \<Rightarrow> bool" where
  "drive_like w = (take 1 (drop 1 w) = '':'' \<and> take 1 w \<noteq> [] \<and> hd w \<in> set drive_letters)"

text \<open>
  \<^verbatim>\<open>_WindowsFlavour.splitroot\<close>.  A text \<^verbatim>\<open>\\machine\share\rest\<close> has the drive
  \<^verbatim>\<open>\\machine\share\<close> and the root \<^verbatim>\<open>\\<close>; \<open>behind\<close> is the text from the
  first separator behind the machine on, \<open>share\<close> the name behind that
  separator.  Otherwise a letter and a colon are the drive, and separators
  behind the drive are the root.
\<close>

definition splitroot_windows :: "string \<Rightarrow> string \<times> string \<times> string" where
  "splitroot_windows part0 =
     (let ext = (if take 1 (drop 1 part0) = [backslash] \<and> take 1 part0 = [backslash]
                 then split_extended_path part0 else ([], part0));
          pre = fst ext;
          part = snd ext;
          first = take 1 part;
          second = take 1 (drop 1 part);
          third = take 1 (drop 2 part);
          behind = dropWhile (\<lambda>c. c \<noteq> backslash) (drop 2 part);
          share = takeWhile (\<lambda>c. c \<noteq> backslash) (drop 1 behind)
      in if second = [backslash] \<and> first = [backslash] \<and> third \<noteq> [backslash]
            \<and> behind \<noteq> [] \<and> take 1 (drop 1 behind) \<noteq> [backslash]
         then (let unc = take (length part - length behind) part @ [backslash] @ share;
                   rest = drop 1 (dropWhile (\<lambda>c. c \<noteq> backslash) (drop 1 behind))
               in (if pre \<noteq> [] then pre @ drop 1 unc else unc, [backslash], rest))
         else (let drv = (if drive_like part then take 2 part else []);
                   part1 = (if drive_like part then drop 2 part else part);
                   first1 = (if drive_like part then third else first)
               in if first1 = [backslash]
                  then (pre @ drv, [backslash], dropWhile (\<lambda>c. c = backslash) part1)
                  else (pre @ drv, [], part1)))"

definition splitroot :: "flavour \<Rightarrow> string \<Rightarrow> string \<times> string \<times> string" where
  "splitroot fl part = (case fl of Posix \<Rightarrow> splitroot_posix part | Windows \<Rightarrow> splitroot_windows part)"

text \<open>
  A path object: drive, root and the segments behind them.  \<open>py_parts p\<close> is
  the attribute \<^verbatim>\<open>_parts\<close> of the object, which starts with drive and root
  as one element if one of them is there; it is what a path object gives to
  \<^verbatim>\<open>Path\<close> when it is an argument.
\<close>

record ppath =
  pp_drv :: string
  pp_root :: string
  pp_segs :: "string list"

definition py_parts :: "ppath \<Rightarrow> string list" where
  "py_parts p =
     (if pp_drv p \<noteq> [] \<or> pp_root p \<noteq> [] then [pp_drv p @ pp_root p] else []) @ pp_segs p"

text \<open>
  \<^verbatim>\<open>_Flavour.parse_parts\<close> reads the arguments from the last to the first.
  \<open>find_drive\<close> is its inner loop, which looks for a drive in the arguments
  before one that has a root and no drive; \<open>parse_rev\<close> is its outer loop, on
  the reversed list: an empty argument is skipped, the segments of an
  argument are its rest cut at the separator without the empty ones and the
  single dots, and an argument with a drive or a root ends the loop, so that
  the arguments before it are dropped.
\<close>

fun find_drive :: "flavour \<Rightarrow> string list \<Rightarrow> string" where
  "find_drive fl [] = []"
| "find_drive fl (part # earlier) =
     (if part = [] then find_drive fl earlier
      else (case splitroot fl (replace_altsep fl part) of
              (drv, root, rel) \<Rightarrow> if drv \<noteq> [] then drv else find_drive fl earlier))"

fun parse_rev :: "flavour \<Rightarrow> string list \<Rightarrow> string \<times> string \<times> string list" where
  "parse_rev fl [] = ([], [], [])"
| "parse_rev fl (part # earlier) =
     (if part = [] then parse_rev fl earlier
      else (case splitroot fl (replace_altsep fl part) of
              (drv, root, rel) \<Rightarrow>
                (let segs = filter (\<lambda>x. x \<noteq> [] \<and> x \<noteq> ''.'') (split_on (path_sep fl) rel)
                 in if drv \<noteq> [] \<or> root \<noteq> []
                    then (if drv = [] then find_drive fl earlier else drv, root, segs)
                    else (case parse_rev fl earlier of
                            (d, r, ss) \<Rightarrow> (d, r, ss @ segs)))))"

text \<open>
  \<^verbatim>\<open>Path(a, b, ...)\<close>, for the list of what the arguments give: a text gives
  itself, a path object its \<open>py_parts\<close>.
\<close>

definition Path :: "flavour \<Rightarrow> string list \<Rightarrow> ppath" where
  "Path fl parts =
     (case parse_rev fl (rev parts) of
        (d, r, ss) \<Rightarrow> \<lparr>pp_drv = d, pp_root = r, pp_segs = ss\<rparr>)"

text \<open>The attributes \<^verbatim>\<open>name\<close> and \<^verbatim>\<open>parent\<close>, and \<^verbatim>\<open>str\<close>.\<close>

definition pname :: "ppath \<Rightarrow> string" where
  "pname p = (if pp_segs p = [] then [] else last (pp_segs p))"

definition pparent :: "ppath \<Rightarrow> ppath" where
  "pparent p = (if pp_segs p = [] then p else p\<lparr>pp_segs := butlast (pp_segs p)\<rparr>)"

definition pstr :: "flavour \<Rightarrow> ppath \<Rightarrow> string" where
  "pstr fl p =
     (if pp_drv p @ pp_root p @ join_with [path_sep fl] (pp_segs p) = [] then ''.''
      else pp_drv p @ pp_root p @ join_with [path_sep fl] (pp_segs p))"

text \<open>
  \<^verbatim>\<open>Path(C.scene.render.filepath).name + '_######'\<close>, the last argument of
  \<^verbatim>\<open>Path\<close> in both branches of both expressions.
\<close>

definition filename_segment :: "flavour \<Rightarrow> string \<Rightarrow> string" where
  "filename_segment fl filepath = pname (Path fl [filepath]) @ ''_######''"

text \<open>
  BeFrames_BlenderPath: the path object of
  \<^verbatim>\<open>Path(Path(filepath).parent, Path(filepath).name + '_######')\<close> if
  \<^verbatim>\<open>settings.stable_directory\<close>, and of the same with \<^verbatim>\<open>'{timestamp}'\<close> as
  second argument otherwise; the setting is its \<^verbatim>\<open>str\<close>.
\<close>

definition template_BlenderPath :: "flavour \<Rightarrow> bool \<Rightarrow> string \<Rightarrow> ppath" where
  "template_BlenderPath fl stable_dir filepath =
     (if stable_dir
      then Path fl (py_parts (pparent (Path fl [filepath])) @ [filename_segment fl filepath])
      else Path fl (py_parts (pparent (Path fl [filepath]))
                    @ [''{timestamp}'', filename_segment fl filepath]))"

definition render_output_path_eval_BlenderPath :: "flavour \<Rightarrow> bool \<Rightarrow> string \<Rightarrow> string" where
  "render_output_path_eval_BlenderPath fl stable_dir filepath =
     pstr fl (template_BlenderPath fl stable_dir filepath)"

text \<open>
  BeFrames_RootBased: \<open>root_args\<close> is what the value of
  \<^verbatim>\<open>abspath(settings.render_output_root)\<close> gives to \<^verbatim>\<open>Path\<close> and
  \<open>dirs_args\<close> what the value of
  \<^verbatim>\<open>last_n_dir_parts(settings.add_path_components)\<close> gives, two functions of
  the Blender add-on.
\<close>

definition template_RootBased ::
    "flavour \<Rightarrow> bool \<Rightarrow> string list \<Rightarrow> string list \<Rightarrow> string \<Rightarrow> string \<Rightarrow> ppath" where
  "template_RootBased fl stable_dir root_args dirs_args jobname filepath =
     (if stable_dir
      then Path fl (root_args @ dirs_args @ [jobname, filename_segment fl filepath])
      else Path fl (root_args @ dirs_args
                    @ [jobname, ''{timestamp}'', filename_segment fl filepath]))"

definition render_output_path_eval_RootBased ::
    "flavour \<Rightarrow> bool \<Rightarrow> string list \<Rightarrow> string list \<Rightarrow> string \<Rightarrow> string \<Rightarrow> string" where
  "render_output_path_eval_RootBased fl stable_dir root_args dirs_args jobname filepath =
     pstr fl (template_RootBased fl stable_dir root_args dirs_args jobname filepath)"

subsection \<open>Notions used to state the properties\<close>

text \<open>
  \<open>substitute_timestamp ts p\<close> is \<open>p\<close> with each occurrence of the text
  \<open>{timestamp}\<close>, read from the left, replaced by \<open>ts\<close> and every other
  character kept: the resolution of a template as the specification words it.
\<close>

function substitute_timestamp :: "string \<Rightarrow> string \<Rightarrow> string" where
  "substitute_timestamp ts [] = []"
| "substitute_timestamp ts (c # cs) =
     (if prefix ''{timestamp}'' (c # cs)
      then ts @ substitute_timestamp ts (drop 10 cs)
      else c # substitute_timestamp ts cs)"
  by pat_completeness auto
termination
  by (relation "measure (\<lambda>(ts, p). length p)") auto

declare substitute_timestamp.simps(2) [simp del]

text \<open>
  \<open>plain fl w\<close>: the text \<open>w\<close> is one segment for the flavour \<open>fl\<close>: it
  is not empty, not a single dot, has no separator and, on Windows, does not
  start with a drive.
\<close>

definition plain :: "flavour \<Rightarrow> string \<Rightarrow> bool" where
  "plain fl w =
     (w \<noteq> [] \<and> w \<noteq> ''.'' \<and> path_sep fl \<notin> set w
      \<and> (fl = Windows \<longrightarrow> CHR ''/'' \<notin> set w \<and> \<not> drive_like w))"

text \<open>
  \<open>dir_text fl p\<close>: the text of the path \<open>p\<close> read as a directory: drive and
  root, then each segment with a separator behind it.
\<close>

definition dir_text :: "flavour \<Rightarrow> ppath \<Rightarrow> string" where
  "dir_text fl p = pp_drv p @ pp_root p @ concat (map (\<lambda>s. s @ [path_sep fl]) (pp_segs p))"

text \<open>\<open>occurs_in w s\<close>: the text \<open>w\<close> stands somewhere in \<open>s\<close>.\<close>

fun occurs_in :: "string \<Rightarrow> string \<Rightarrow> bool" where
  "occurs_in w [] = (w = [])"
| "occurs_in w (c # cs) = (prefix w (c # cs) \<or> occurs_in w cs)"

text \<open>
  \<open>unnested opn s\<close>: no \<open>{\<close> of \<open>s\<close> stands behind a \<open>{\<close> that no \<open>}\<close>
  has closed yet; \<open>opn\<close> tells whether a \<open>{\<close> is open where \<open>s\<close> starts.
\<close>

fun unnested :: "bool \<Rightarrow> string \<Rightarrow> bool" where
  "unnested opn [] = True"
| "unnested opn (c # cs) =
     (if c = CHR ''{'' then \<not> opn \<and> unnested True cs
      else if c = CHR ''}'' then unnested False cs
      else unnested opn cs)"

subsection \<open>A host and jobs for the examples\<close>

text \<open>
  The chunker and the frame count are the ones above.  The time is printed as
  its number of seconds.  The path functions cut a path at its last \<open>/\<close> and
  join with \<open>/\<close>, as the manager's do on an absolute path with two segments
  or more and no empty segment, \<open>.\<close> or \<open>..\<close>.
\<close>

definition example_host :: host where
  "example_host =
     \<lparr>formatTimestampLocal = (\<lambda>t. show_nat (nat t)),
      frameChunker = frameChunker_spec,
      frameCount = frameCount_spec,
      path_dirname = (\<lambda>p. join_with ''/'' (butlast (split_on CHR ''/'' p))),
      path_basename = (\<lambda>p. last (split_on CHR ''/'' p)),
      path_join = (\<lambda>a b. a @ ''/'' @ b)\<rparr>"

text \<open>
  Modelled from the spec: \<^verbatim>\<open>formatTimestampLocal\<close>, which the files call and
  do not define.  By section 4.2 of the specification it gives the local time
  of the moment it is given, so it depends on the time zone of the manager;
  \<open>zone\<close> is the offset of that zone in seconds east of UTC.  The time is
  written as in the example of the header of BeFrames_RootBased,
  \<^verbatim>\<open>2025-12-18_10-12-33\<close>.  \<open>civil_from_days\<close> gives year, month and day of
  a number of days since 1970-01-01.
\<close>

definition civil_from_days :: "int \<Rightarrow> int \<times> int \<times> int" where
  "civil_from_days days =
     (let z = days + 719468;
          era = z div 146097;
          doe = z - era * 146097;
          yoe = (doe - doe div 1460 + doe div 36524 - doe div 146096) div 365;
          doy = doe - (365 * yoe + yoe div 4 - yoe div 100);
          mp = (5 * doy + 2) div 153;
          d = doy - (153 * mp + 2) div 5 + 1;
          m = (if mp < 10 then mp + 3 else mp - 9);
          y = yoe + era * 400 + (if m \<le> 2 then 1 else 0)
      in (y, m, d))"

definition pad :: "nat \<Rightarrow> int \<Rightarrow> string" where
  "pad n v = replicate (n - length (show_nat (nat v))) CHR ''0'' @ show_nat (nat v)"

definition format_local :: "int \<Rightarrow> int \<Rightarrow> string" where
  "format_local zone t =
     (let local = t + zone;
          date = civil_from_days (local div 86400);
          secs = local mod 86400
      in pad 4 (fst date) @ ''-'' @ pad 2 (fst (snd date)) @ ''-'' @ pad 2 (snd (snd date))
         @ ''_'' @ pad 2 (secs div 3600) @ ''-'' @ pad 2 (secs mod 3600 div 60)
         @ ''-'' @ pad 2 (secs mod 60))"

text \<open>The example host on a manager in the time zone \<open>zone\<close>.\<close>

definition zone_host :: "int \<Rightarrow> host" where
  "zone_host zone = example_host\<lparr>formatTimestampLocal := format_local zone\<rparr>"

text \<open>
  The example host on a manager whose zone is one hour east of UTC until
  2026-03-29 01:00:00 UTC and two hours from then on.
\<close>

definition summer_host :: host where
  "summer_host =
     example_host\<lparr>formatTimestampLocal :=
       (\<lambda>t. format_local (if t < 1774746000 then 3600 else 7200) t)\<rparr>"

definition example_settings :: settings where
  "example_settings =
     \<lparr>frames = ''1-5'', chunk_size = 2, render_output_root = Some ''/farm'',
      add_path_components = 0, force_overwrite = True, stable_directory = False,
      render_output_path = ''/proj/shot010/render/{timestamp}/Anim03_######'',
      blendfile = ''/proj/shot010/scene.blend'', scene = Some ''Scene'',
      format = ''OPEN_EXR'', image_file_extension = ''.exr''\<rparr>"

definition example_job :: job where
  "example_job =
     \<lparr>job_name = ''MyJob'', priority = 50, created = 1204,
      job_settings = example_settings, tasks = []\<rparr>"

text \<open>The example job, created on 2025-12-18 at 10:12:33 UTC.\<close>

definition december_job :: job where
  "december_job = example_job\<lparr>created := 1766052753\<rparr>"

section \<open>Lemmas\<close>

subsection \<open>Tasks and jobs\<close>

lemma tasks_foldl_addTask: "tasks (foldl addTask j ts) = tasks j @ ts"
  by (induction ts arbitrary: j) (simp_all add: addTask_def)

lemma settings_foldl_addTask: "job_settings (foldl addTask j ts) = job_settings j"
  by (induction ts arbitrary: j) (simp_all add: addTask_def)

lemma foldl_addTask_eq: "foldl addTask j ts = j\<lparr>tasks := tasks j @ ts\<rparr>"
  by (induction ts arbitrary: j) (simp_all add: addTask_def)

lemma author_loop_Inr:
  "author_loop h s rd ro acc chunks = Inr ts \<Longrightarrow>
   \<exists>ts'. ts = acc @ ts' \<and>
     list_all2 (\<lambda>chunk t. \<exists>k. frameCount h chunk = Inr k \<and> t = render_task h s rd ro chunk k)
       chunks ts'"
proof (induction chunks arbitrary: acc ts)
  case Nil
  then show ?case by simp
next
  case (Cons chunk chunks)
  from Cons.prems obtain k where k: "frameCount h chunk = Inr k"
    and rest: "author_loop h s rd ro (acc @ [render_task h s rd ro chunk k]) chunks = Inr ts"
    by (auto split: sum.splits)
  from Cons.IH [OF rest] obtain ts' where
    "ts = (acc @ [render_task h s rd ro chunk k]) @ ts'"
    "list_all2 (\<lambda>chunk t. \<exists>k. frameCount h chunk = Inr k \<and> t = render_task h s rd ro chunk k)
       chunks ts'"
    by blast
  with k show ?case
    by (intro exI [of _ "render_task h s rd ro chunk k # ts'"]) simp
qed

lemma authorRenderTasks_Inr:
  "authorRenderTasks h s rd ro = Inr ts \<Longrightarrow>
   \<exists>chunks. frameChunker h (frames s) (chunk_size s) = Inr chunks \<and>
     list_all2 (\<lambda>chunk t. \<exists>k. frameCount h chunk = Inr k \<and> t = render_task h s rd ro chunk k)
       chunks ts"
  unfolding authorRenderTasks_def
  by (auto split: sum.splits dest: author_loop_Inr)

lemma resolve_and_author_cases:
  "resolve_and_author h j =
     (case authorRenderTasks h ((job_settings j)\<lparr>render_output_path := renderOutputPath h j\<rparr>)
             (path_dirname h (renderOutputPath h j)) (renderOutputPath h j) of
        Inl e \<Rightarrow> (j\<lparr>job_settings := (job_settings j)\<lparr>render_output_path := renderOutputPath h j\<rparr>\<rparr>, Some e)
      | Inr ts \<Rightarrow> (j\<lparr>job_settings := (job_settings j)\<lparr>render_output_path := renderOutputPath h j\<rparr>,
                     tasks := tasks j @ ts\<rparr>, None))"
  by (simp add: resolve_and_author_def Let_def foldl_addTask_eq split: sum.splits)

lemma render_task_frames:
  "map command_frames (commands (render_task h s rd ro chunk k)) = [k]"
  by (simp add: render_task_def addCommand_def author_Task_def author_Command_def)

lemma render_task_fields:
  "task_name (render_task h s rd ro chunk k) = ''render-'' @ chunk"
  "task_type (render_task h s rd ro chunk k) = ''blender''"
  "commands (render_task h s rd ro chunk k) =
     [author_Command ''blender-render''
        \<lparr>exe = ''{blender}'', exeArgs = ''{blenderArgs}'', param_blendfile = blendfile s,
         args = render_args h s rd ro chunk\<rparr> k]"
  by (simp_all add: render_task_def addCommand_def author_Task_def)

lemma replaceAll_dash_no_dash: "CHR ''-'' \<notin> set (replaceAll_dash chunk)"
  by (induction chunk) (auto simp: replaceAll_dash_def)

lemma replaceAll_dash_append:
  "replaceAll_dash (a @ b) = replaceAll_dash a @ replaceAll_dash b"
  by (simp add: replaceAll_dash_def)

lemma resolve_and_author_tasks:
  assumes "resolve_and_author h j = (j', r)"
  shows "case r of
           None \<Rightarrow> \<exists>chunks ts.
               frameChunker h (frames (job_settings j)) (chunk_size (job_settings j)) = Inr chunks
             \<and> tasks j' = tasks j @ ts
             \<and> list_all2 (\<lambda>chunk t. task_name t = ''render-'' @ chunk \<and> length (commands t) = 1)
                  chunks ts
         | Some e \<Rightarrow> tasks j' = tasks j"
proof (cases "authorRenderTasks h ((job_settings j)\<lparr>render_output_path := renderOutputPath h j\<rparr>)
             (path_dirname h (renderOutputPath h j)) (renderOutputPath h j)")
  case (Inl e)
  with assms show ?thesis by (auto simp: resolve_and_author_cases)
next
  case (Inr ts)
  from authorRenderTasks_Inr [OF Inr] obtain chunks where
    chunks: "frameChunker h (frames (job_settings j)) (chunk_size (job_settings j)) = Inr chunks"
    and all: "list_all2 (\<lambda>chunk t. \<exists>k. frameCount h chunk = Inr k
        \<and> t = render_task h ((job_settings j)\<lparr>render_output_path := renderOutputPath h j\<rparr>)
              (path_dirname h (renderOutputPath h j)) (renderOutputPath h j) chunk k) chunks ts"
    by auto
  from all have "list_all2 (\<lambda>chunk t. task_name t = ''render-'' @ chunk \<and> length (commands t) = 1)
                  chunks ts"
    by (rule list_all2_mono) (auto simp: render_task_fields)
  with chunks Inr assms show ?thesis
    by (auto simp: resolve_and_author_cases)
qed

lemma render_task_cong:
  "path_join h1 rd (path_basename h1 ro) = path_join h2 rd (path_basename h2 ro) \<Longrightarrow>
   render_task h1 s rd ro chunk k = render_task h2 s rd ro chunk k"
  by (simp add: render_task_def render_args_def)

lemma author_loop_cong:
  assumes "path_join h1 rd (path_basename h1 ro) = path_join h2 rd (path_basename h2 ro)"
  shows "\<forall>chunk \<in> set chunks. frameCount h1 chunk = frameCount h2 chunk \<Longrightarrow>
         author_loop h1 s rd ro acc chunks = author_loop h2 s rd ro acc chunks"
proof (induction chunks arbitrary: acc)
  case Nil
  then show ?case by simp
next
  case (Cons chunk chunks)
  then have "frameCount h1 chunk = frameCount h2 chunk"
    and "\<forall>chunk \<in> set chunks. frameCount h1 chunk = frameCount h2 chunk"
    by simp_all
  with Cons.IH render_task_cong [OF assms] show ?case
    by (simp split: sum.splits)
qed

lemma authorRenderTasks_cong:
  assumes "frameChunker h1 (frames s) (chunk_size s) = frameChunker h2 (frames s) (chunk_size s)"
    and "\<forall>chunks. frameChunker h1 (frames s) (chunk_size s) = Inr chunks \<longrightarrow>
           (\<forall>chunk \<in> set chunks. frameCount h1 chunk = frameCount h2 chunk)"
    and "path_join h1 rd (path_basename h1 ro) = path_join h2 rd (path_basename h2 ro)"
  shows "authorRenderTasks h1 s rd ro = authorRenderTasks h2 s rd ro"
proof (cases "frameChunker h1 (frames s) (chunk_size s)")
  case (Inl e)
  then show ?thesis by (simp add: authorRenderTasks_def assms(1) [symmetric])
next
  case (Inr chunks)
  with assms(2) have "\<forall>chunk \<in> set chunks. frameCount h1 chunk = frameCount h2 chunk"
    by simp
  from author_loop_cong [OF assms(3) this] Inr show ?thesis
    by (simp add: authorRenderTasks_def assms(1) [symmetric])
qed

lemma renderOutputPath_cong:
  assumes "job_settings j1 = job_settings j2"
    and "formatTimestampLocal h1 (created j1) = formatTimestampLocal h2 (created j2)"
  shows "renderOutputPath h1 j1 = renderOutputPath h2 j2"
  using assms by (simp add: renderOutputPath_def cong: if_cong)

lemma resolve_and_author_reads:
  assumes "job_settings j1 = job_settings j2"
    and "renderOutputPath h1 j1 = renderOutputPath h2 j2"
    and "path_dirname h1 (renderOutputPath h1 j1) = path_dirname h2 (renderOutputPath h1 j1)"
    and "authorRenderTasks h1 ((job_settings j1)\<lparr>render_output_path := renderOutputPath h1 j1\<rparr>)
           (path_dirname h1 (renderOutputPath h1 j1)) (renderOutputPath h1 j1)
         = authorRenderTasks h2 ((job_settings j1)\<lparr>render_output_path := renderOutputPath h1 j1\<rparr>)
           (path_dirname h1 (renderOutputPath h1 j1)) (renderOutputPath h1 j1)"
  shows "snd (resolve_and_author h1 j1) = snd (resolve_and_author h2 j2)
       \<and> job_settings (fst (resolve_and_author h1 j1)) = job_settings (fst (resolve_and_author h2 j2))
       \<and> drop (length (tasks j1)) (tasks (fst (resolve_and_author h1 j1)))
         = drop (length (tasks j2)) (tasks (fst (resolve_and_author h2 j2)))"
proof -
  let ?ro = "renderOutputPath h1 j1"
  let ?s = "(job_settings j1)\<lparr>render_output_path := ?ro\<rparr>"
  have r2: "renderOutputPath h2 j2 = ?ro" using assms(2) by simp
  have d2: "path_dirname h2 ?ro = path_dirname h1 ?ro" using assms(3) by simp
  have s2: "job_settings j2 = job_settings j1" using assms(1) by simp
  have a2: "authorRenderTasks h2 ?s (path_dirname h1 ?ro) ?ro
          = authorRenderTasks h1 ?s (path_dirname h1 ?ro) ?ro"
    using assms(4) by simp
  show ?thesis
    by (cases "authorRenderTasks h1 ?s (path_dirname h1 ?ro) ?ro")
      (simp_all add: resolve_and_author_cases r2 d2 s2 a2)
qed

lemma list_all2_set2: "list_all2 P xs ys \<Longrightarrow> y \<in> set ys \<Longrightarrow> \<exists>x \<in> set xs. P x y"
  by (induction rule: list_all2_induct) auto

lemma compile_None:
  assumes "compile = compileJob_BlenderPath \<or> compile = compileJob_RootBased"
    and "compile h j = (j', None)"
  shows "resolve_and_author h j = (j', None)"
  using assms
  by (auto simp: compileJob_BlenderPath_def compileJob_RootBased_def split: if_splits)

lemma resolve_and_author_None:
  assumes "resolve_and_author h j = (j', None)"
  shows "\<exists>ts. authorRenderTasks h ((job_settings j)\<lparr>render_output_path := renderOutputPath h j\<rparr>)
             (path_dirname h (renderOutputPath h j)) (renderOutputPath h j) = Inr ts
           \<and> j' = j\<lparr>job_settings := (job_settings j)\<lparr>render_output_path := renderOutputPath h j\<rparr>,
                     tasks := tasks j @ ts\<rparr>"
  using assms by (auto simp: resolve_and_author_cases split: sum.splits)

subsection \<open>Numbers, tokens and ranges\<close>

lemma digit_cases: "d < 10 \<Longrightarrow> d \<in> {0, 1, 2, 3, 4, 5, 6, 7, 8, 9 :: nat}"
  by auto

lemma upt_10: "[0 ..< 10] = [0, 1, 2, 3, 4, 5, 6, 7, 8, 9 :: nat]"
  by (simp add: upt_rec)

lemma digit_of_show_digit: "d < 10 \<Longrightarrow> digit_of (show_digit d) = Some d"
  using digit_cases [of d] by (auto simp: digit_of_def show_digit_def upt_10)

lemma show_digit_in: "d < 10 \<Longrightarrow> show_digit d \<in> set ''0123456789''"
  using digit_cases [of d] by (auto simp: show_digit_def)

lemma set_show_nat: "set (show_nat n) \<subseteq> set ''0123456789''"
proof (induction n rule: show_nat.induct)
  case (1 n)
  show ?case
  proof (cases "n < 10")
    case True
    then show ?thesis using show_digit_in [of n] by (subst show_nat.simps) simp
  next
    case False
    have "n mod 10 < 10" by simp
    from show_digit_in [OF this] "1" [OF False] False
    show ?thesis by (subst show_nat.simps) simp
  qed
qed

lemma show_nat_not_Nil: "show_nat n \<noteq> []"
  by (subst show_nat.simps) simp

lemma parse_digits_snoc:
  "parse_digits acc (cs @ [c]) =
     (case parse_digits acc cs of
        None \<Rightarrow> None
      | Some a \<Rightarrow> (case digit_of c of None \<Rightarrow> None | Some d \<Rightarrow> Some (10 * a + d)))"
  by (induction cs arbitrary: acc) (auto split: option.splits)

lemma parse_digits_show_nat: "parse_digits 0 (show_nat n) = Some n"
proof (induction n rule: show_nat.induct)
  case (1 n)
  show ?case
  proof (cases "n < 10")
    case True
    then show ?thesis by (subst show_nat.simps) (simp add: digit_of_show_digit)
  next
    case False
    have "n mod 10 < 10" by simp
    with "1" [OF False] False show ?thesis
      by (subst show_nat.simps) (simp add: parse_digits_snoc digit_of_show_digit)
  qed
qed

lemma parse_nat_show_nat: "parse_nat (show_nat n) = Some n"
  by (simp add: parse_nat_def show_nat_not_Nil parse_digits_show_nat)

lemma show_nat_no_ws: "c \<in> set (show_nat n) \<Longrightarrow> \<not> js_whitespace c"
  using set_show_nat [of n] by (auto simp: js_whitespace_def)

lemma show_nat_no_dash: "CHR ''-'' \<notin> set (show_nat n)"
  using set_show_nat [of n] by auto

lemma show_nat_no_comma: "CHR '','' \<notin> set (show_nat n)"
  using set_show_nat [of n] by auto

lemma trim_id: "s \<noteq> [] \<Longrightarrow> \<not> js_whitespace (hd s) \<Longrightarrow> \<not> js_whitespace (last s) \<Longrightarrow> trim s = s"
proof -
  assume a: "s \<noteq> []" "\<not> js_whitespace (hd s)" "\<not> js_whitespace (last s)"
  then have 1: "dropWhile js_whitespace s = s"
    by (simp add: dropWhile_eq_self_iff)
  from a have "dropWhile js_whitespace (rev s) = rev s"
    by (simp add: dropWhile_eq_self_iff hd_rev)
  with 1 show ?thesis by (simp add: trim_def)
qed

lemma split_on_not_Nil: "split_on sep s \<noteq> []"
  by (induction s) (auto split: list.splits)

lemma split_on_none: "sep \<notin> set s \<Longrightarrow> split_on sep s = [s]"
  by (induction s) auto

lemma split_on_append: "sep \<notin> set a \<Longrightarrow> split_on sep (a @ sep # b) = a # split_on sep b"
  by (induction a) auto

lemma split_on_join:
  "ts \<noteq> [] \<Longrightarrow> \<forall>t \<in> set ts. sep \<notin> set t \<Longrightarrow> split_on sep (join_with [sep] ts) = ts"
proof (induction "[sep]" ts rule: join_with.induct)
  case 1
  then show ?case by simp
next
  case (2 x)
  then show ?case by (simp add: split_on_none)
next
  case (3 x y ys)
  then show ?case by (simp add: split_on_append)
qed

lemma frames_between_same: "frames_between n n = [n]"
  by (simp add: frames_between_def)

lemma frames_between_Cons: "Suc m \<le> n \<Longrightarrow> frames_between m n = m # frames_between (Suc m) n"
  by (simp add: frames_between_def upt_conv_Cons del: upt_Suc)

lemma frame_runs_le: "\<forall>r \<in> set (frame_runs xs). fst r \<le> snd r"
proof (induction xs)
  case Nil
  then show ?case by simp
next
  case (Cons x xs)
  show ?case
  proof (cases "frame_runs xs")
    case Nil
    then show ?thesis by simp
  next
    case (Cons r rs)
    with Cons.IH have "fst r \<le> snd r" and "\<forall>r \<in> set rs. fst r \<le> snd r"
      by simp_all
    with Cons show ?thesis
      by (cases r) (auto split: if_splits)
  qed
qed

lemma frame_runs_not_Nil: "xs \<noteq> [] \<Longrightarrow> frame_runs xs \<noteq> []"
  by (cases xs) (auto split: list.splits)

lemma frame_runs_expand:
  "concat (map (\<lambda>r. frames_between (fst r) (snd r)) (frame_runs xs)) = xs"
proof (induction xs)
  case Nil
  then show ?case by simp
next
  case (Cons x xs)
  show ?case
  proof (cases "frame_runs xs")
    case Nil
    with Cons.IH show ?thesis by (simp add: frames_between_same)
  next
    case (Cons r rs)
    obtain a b where r: "r = (a, b)" by (cases r)
    have "a \<le> b" using frame_runs_le [of xs] Cons r by simp
    then have "a = Suc x \<Longrightarrow> frames_between x b = x # frames_between a b"
      by (simp add: frames_between_Cons)
    with Cons.IH Cons r show ?thesis
      by (auto simp: frames_between_same)
  qed
qed

lemma show_run_no_comma: "CHR '','' \<notin> set (show_run r)"
  by (simp add: show_run_def show_nat_no_comma)

lemma hd_show_nat_no_ws: "\<not> js_whitespace (hd (show_nat n))"
  using show_nat_no_ws [of "hd (show_nat n)" n] by (simp add: show_nat_not_Nil)

lemma last_show_nat_no_ws: "\<not> js_whitespace (last (show_nat n))"
  using show_nat_no_ws [of "last (show_nat n)" n] by (simp add: show_nat_not_Nil)

lemma trim_show_nat: "trim (show_nat n) = show_nat n"
  by (rule trim_id) (simp_all add: show_nat_not_Nil hd_show_nat_no_ws last_show_nat_no_ws)

lemma parse_token_show_run:
  assumes "a \<le> b"
  shows "parse_token (show_run (a, b)) = Inr (frames_between a b)"
proof (cases "a = b")
  case True
  have "trim (show_nat b) = show_nat b" by (rule trim_show_nat)
  with True show ?thesis
    by (simp add: parse_token_def show_run_def split_on_none show_nat_no_dash
        parse_nat_show_nat frames_between_same)
next
  case False
  let ?s = "show_nat a @ CHR ''-'' # show_nat b"
  have "trim ?s = ?s"
    by (rule trim_id)
      (simp_all add: show_nat_not_Nil hd_append hd_show_nat_no_ws last_show_nat_no_ws)
  moreover have "split_on CHR ''-'' ?s = [show_nat a, show_nat b]"
    by (simp add: split_on_append split_on_none show_nat_no_dash)
  ultimately show ?thesis using False assms
    by (simp add: parse_token_def show_run_def trim_show_nat parse_nat_show_nat)
qed

lemma parse_tokens_show_runs:
  "\<forall>r \<in> set rs. fst r \<le> snd r \<Longrightarrow>
   parse_tokens (map show_run rs) = Inr (concat (map (\<lambda>r. frames_between (fst r) (snd r)) rs))"
proof (induction rs)
  case Nil
  then show ?case by simp
next
  case (Cons r rs)
  obtain a b where r: "r = (a, b)" by (cases r)
  with Cons.prems have "a \<le> b" by simp
  from parse_token_show_run [OF this] Cons r show ?case by simp
qed

lemma parse_frames_show_frames:
  assumes "sorted xs" "distinct xs" "xs \<noteq> []"
  shows "parse_frames (show_frames xs) = Inr xs"
proof -
  have "split_on CHR '','' (show_frames xs) = map show_run (frame_runs xs)"
    unfolding show_frames_def
    by (rule split_on_join) (simp_all add: frame_runs_not_Nil assms show_run_no_comma)
  moreover have "parse_tokens (map show_run (frame_runs xs)) = Inr xs"
    using parse_tokens_show_runs [OF frame_runs_le [of xs]]
    by (simp add: frame_runs_expand)
  moreover have "sort (remdups xs) = xs"
    using assms by (simp add: distinct_remdups_id sorted_sort_id)
  ultimately show ?thesis by (simp add: parse_frames_def)
qed

subsection \<open>Groups of frames\<close>

lemma concat_chunk_list: "0 < n \<Longrightarrow> concat (chunk_list n xs) = xs"
proof (induction n xs rule: chunk_list.induct)
  case (1 n xs)
  then show ?case by (subst chunk_list.simps) simp
qed

lemma chunk_list_lengths:
  "0 < n \<Longrightarrow> \<forall>g \<in> set (chunk_list n xs). g \<noteq> [] \<and> length g \<le> n"
proof (induction n xs rule: chunk_list.induct)
  case (1 n xs)
  then show ?case by (subst chunk_list.simps) auto
qed

lemma chunk_list_Nil_iff: "0 < n \<Longrightarrow> chunk_list n xs = [] \<longleftrightarrow> xs = []"
  by (subst chunk_list.simps) simp

lemma chunk_list_full:
  "0 < n \<Longrightarrow> \<forall>g \<in> set (butlast (chunk_list n xs)). length g = n"
proof (induction n xs rule: chunk_list.induct)
  case (1 n xs)
  show ?case
  proof (cases "xs = []")
    case True
    then show ?thesis by (subst chunk_list.simps) simp
  next
    case False
    show ?thesis
    proof (cases "drop n xs = []")
      case True
      with False "1.prems" show ?thesis
        by (subst chunk_list.simps) (simp add: chunk_list_Nil_iff)
    next
      case d: False
      then have "n < length xs" by simp
      with False "1.prems" "1.IH" d show ?thesis
        by (subst chunk_list.simps) (simp add: chunk_list_Nil_iff)
    qed
  qed
qed

lemma chunk_list_sorted:
  "sorted xs \<Longrightarrow> distinct xs \<Longrightarrow> \<forall>g \<in> set (chunk_list n xs). sorted g \<and> distinct g"
proof (induction n xs rule: chunk_list.induct)
  case (1 n xs)
  show ?case
  proof (cases "n = 0 \<or> xs = []")
    case True
    then show ?thesis by (subst chunk_list.simps) simp
  next
    case False
    from "1.prems" have "sorted (take n xs)" "distinct (take n xs)"
      "sorted (drop n xs)" "distinct (drop n xs)"
      by (simp_all add: sorted_wrt_take sorted_wrt_drop)
    with "1.IH" [OF False] False show ?thesis
      by (subst chunk_list.simps) simp
  qed
qed

lemma parse_frames_sorted: "parse_frames s = Inr fs \<Longrightarrow> sorted fs \<and> distinct fs"
  by (auto simp: parse_frames_def split: sum.splits)

lemma author_loop_spec:
  "\<forall>g \<in> set groups. sorted g \<and> distinct g \<and> g \<noteq> [] \<Longrightarrow>
   \<exists>ts. author_loop (spec_chunking h) s rd ro acc (map show_frames groups) = Inr (acc @ ts)
     \<and> list_all2 (\<lambda>g t. t = render_task (spec_chunking h) s rd ro (show_frames g) (length g))
          groups ts"
proof (induction groups arbitrary: acc)
  case Nil
  then show ?case by simp
next
  case (Cons g groups)
  then have "parse_frames (show_frames g) = Inr g"
    by (simp add: parse_frames_show_frames)
  then have k: "frameCount (spec_chunking h) (show_frames g) = Inr (length g)"
    by (simp add: spec_chunking_def frameCount_spec_def)
  from Cons.prems have "\<forall>g \<in> set groups. sorted g \<and> distinct g \<and> g \<noteq> []" by simp
  from Cons.IH [OF this, of "acc @ [render_task (spec_chunking h) s rd ro (show_frames g) (length g)]"]
  obtain ts where
    "author_loop (spec_chunking h) s rd ro
       (acc @ [render_task (spec_chunking h) s rd ro (show_frames g) (length g)])
       (map show_frames groups)
     = Inr ((acc @ [render_task (spec_chunking h) s rd ro (show_frames g) (length g)]) @ ts)"
    "list_all2 (\<lambda>g t. t = render_task (spec_chunking h) s rd ro (show_frames g) (length g))
       groups ts"
    by blast
  with k show ?case
    by (intro exI [of _ "render_task (spec_chunking h) s rd ro (show_frames g) (length g) # ts"])
      simp
qed

subsection \<open>Placeholders\<close>

lemma key_decomposition:
  assumes "after_key cs \<noteq> []"
  shows "cs = placeholder_key cs @ CHR ''}'' # tl (after_key cs)"
    and "CHR ''}'' \<notin> set (placeholder_key cs)"
proof -
  from assms have "hd (after_key cs) = CHR ''}''"
    using hd_dropWhile [of "\<lambda>c. c \<noteq> CHR ''}''" cs] by (simp add: after_key_def)
  with assms have "after_key cs = CHR ''}'' # tl (after_key cs)"
    by (cases "after_key cs") simp_all
  moreover have "cs = placeholder_key cs @ after_key cs"
    by (simp add: placeholder_key_def after_key_def)
  ultimately show "cs = placeholder_key cs @ CHR ''}'' # tl (after_key cs)" by simp
  show "CHR ''}'' \<notin> set (placeholder_key cs)"
    using set_takeWhileD [of "CHR ''}''" "\<lambda>c. c \<noteq> CHR ''}''" cs]
    by (auto simp: placeholder_key_def)
qed

lemma key_of_closed:
  "CHR ''}'' \<notin> set k \<Longrightarrow> placeholder_key (k @ CHR ''}'' # r) = k"
  by (induction k) (auto simp: placeholder_key_def)

lemma after_key_no_close: "CHR ''}'' \<notin> set cs \<Longrightarrow> after_key cs = []"
  by (auto simp: after_key_def)

lemma replace_no_close: "CHR ''}'' \<notin> set cs \<Longrightarrow> replace_placeholders f cs = cs"
  by (induction cs) (simp_all add: replace_placeholders.simps(2) after_key_no_close)

lemma unnested_weaken: "unnested True cs \<Longrightarrow> unnested False cs"
  by (induction cs) (auto split: if_splits)

lemma unnested_key:
  "CHR ''}'' \<notin> set k \<Longrightarrow> unnested True (k @ CHR ''}'' # r) \<Longrightarrow>
   CHR ''{'' \<notin> set k \<and> unnested False r"
  by (induction k) (auto split: if_splits)

lemma not_prefix_placeholder: "c \<noteq> CHR ''{'' \<Longrightarrow> \<not> prefix ''{timestamp}'' (c # cs)"
  by simp

lemma substitute_copy:
  "CHR ''{'' \<notin> set a \<Longrightarrow> substitute_timestamp ts (a @ b) = a @ substitute_timestamp ts b"
  by (induction a) (simp_all add: substitute_timestamp.simps(2))

lemma prefix_placeholder_key:
  assumes "CHR ''}'' \<notin> set k"
  shows "prefix ''{timestamp}'' (CHR ''{'' # k @ CHR ''}'' # r) \<longleftrightarrow> k = ''timestamp''"
proof
  assume "prefix ''{timestamp}'' (CHR ''{'' # k @ CHR ''}'' # r)"
  then obtain z where "k @ CHR ''}'' # r = ''timestamp}'' @ z"
    by (auto simp: prefix_def)
  then have "placeholder_key (k @ CHR ''}'' # r) = placeholder_key (''timestamp}'' @ z)"
    by simp
  with assms show "k = ''timestamp''"
    by (simp add: key_of_closed) (simp add: placeholder_key_def)
next
  assume "k = ''timestamp''"
  then show "prefix ''{timestamp}'' (CHR ''{'' # k @ CHR ''}'' # r)" by simp
qed

lemma replace_eq_substitute_aux:
  "f = (\<lambda>match key. if key = ''timestamp'' then ts else match) \<Longrightarrow> unnested False p \<Longrightarrow>
   replace_placeholders f p = substitute_timestamp ts p"
proof (induction f p rule: replace_placeholders.induct)
  case (1 f)
  then show ?case by simp
next
  case (2 f c cs)
  note f = \<open>f = (\<lambda>match key. if key = ''timestamp'' then ts else match)\<close>
  define k where "k = placeholder_key cs"
  define r where "r = tl (after_key cs)"
  show ?case
  proof (cases "c = CHR ''{''")
    case False
    with "2.prems" have "unnested False cs" by (simp split: if_splits)
    with "2.IH"(2) False f show ?thesis
      by (simp add: replace_placeholders.simps(2) substitute_timestamp.simps(2))
  next
    case True
    with "2.prems" have opn: "unnested True cs" by simp
    show ?thesis
    proof (cases "k \<noteq> [] \<and> after_key cs \<noteq> []")
      case m: True
      then have cs: "cs = k @ CHR ''}'' # r" and kc: "CHR ''}'' \<notin> set k"
        unfolding k_def r_def by (simp_all add: key_decomposition)
      from opn have "unnested True (k @ CHR ''}'' # r)" by (subst cs [symmetric])
      from unnested_key [OF kc this] have nk: "CHR ''{'' \<notin> set k" and ur: "unnested False r"
        by simp_all
      from "2.IH"(1) True m ur f
      have ih: "replace_placeholders f r = substitute_timestamp ts r"
        by (simp add: k_def r_def)
      have lhs: "replace_placeholders f (c # cs)
          = (if k = ''timestamp'' then ts else c # k @ ''}'') @ substitute_timestamp ts r"
        using True m ih f
        by (simp add: replace_placeholders.simps(2) k_def [symmetric] r_def [symmetric])
      have pre: "prefix ''{timestamp}'' (c # k @ CHR ''}'' # r) \<longleftrightarrow> k = ''timestamp''"
        using prefix_placeholder_key [OF kc, of r] True by simp
      have rhs: "substitute_timestamp ts (c # k @ CHR ''}'' # r)
          = (if k = ''timestamp'' then ts else c # k @ ''}'') @ substitute_timestamp ts r"
      proof (cases "k = ''timestamp''")
        case kt: True
        with pre show ?thesis
          by (simp add: substitute_timestamp.simps(2))
      next
        case kf: False
        have "substitute_timestamp ts (c # k @ CHR ''}'' # r)
            = c # substitute_timestamp ts (k @ CHR ''}'' # r)"
          using pre kf by (auto simp: substitute_timestamp.simps(2))
        also have "substitute_timestamp ts (k @ CHR ''}'' # r)
            = k @ substitute_timestamp ts (CHR ''}'' # r)"
          by (rule substitute_copy [OF nk])
        also have "substitute_timestamp ts (CHR ''}'' # r) = CHR ''}'' # substitute_timestamp ts r"
          by (simp add: substitute_timestamp.simps(2))
        finally show ?thesis using kf by simp
      qed
      show ?thesis by (subst (2) cs) (simp only: lhs rhs)
    next
      case nm: False
      from opn have "unnested False cs" by (rule unnested_weaken)
      with "2.IH"(2) True nm f
      have ih: "replace_placeholders f cs = substitute_timestamp ts cs"
        by (simp add: k_def)
      have "\<not> prefix ''{timestamp}'' (c # cs)"
      proof
        assume "prefix ''{timestamp}'' (c # cs)"
        then obtain z where "cs = ''timestamp}'' @ z" by (auto simp: prefix_def)
        then have "k = ''timestamp''" "after_key cs = CHR ''}'' # z"
          by (simp_all add: k_def placeholder_key_def after_key_def)
        with nm show False by simp
      qed
      with ih True nm show ?thesis
        by (auto simp: replace_placeholders.simps(2) substitute_timestamp.simps(2) k_def)
    qed
  qed
qed

lemma replace_eq_substitute:
  "unnested False p \<Longrightarrow>
   replace_placeholders (\<lambda>match key. if key = ''timestamp'' then ts else match) p
   = substitute_timestamp ts p"
  by (rule replace_eq_substitute_aux) simp_all

lemma occurs_in_skip:
  "CHR ''{'' \<notin> set a \<Longrightarrow> occurs_in ''{timestamp}'' (a @ b) = occurs_in ''{timestamp}'' b"
  by (induction a) simp_all

lemma unnested_open_prefix:
  "CHR ''}'' \<notin> set k \<Longrightarrow> unnested True (k @ r) \<Longrightarrow> CHR ''{'' \<notin> set k \<and> unnested True r"
  by (induction k) (auto split: if_splits)

lemma substitute_open:
  assumes "unnested True cs" and "\<not> prefix ''timestamp}'' cs"
  shows "\<not> prefix ''timestamp}'' (substitute_timestamp ts cs)"
proof -
  define k where "k = placeholder_key cs"
  have kc: "CHR ''}'' \<notin> set k"
    using set_takeWhileD [of "CHR ''}''" "\<lambda>c. c \<noteq> CHR ''}''" cs]
    by (auto simp: k_def placeholder_key_def)
  have cs: "cs = k @ after_key cs"
    by (simp add: k_def placeholder_key_def after_key_def)
  from assms(1) have "unnested True (k @ after_key cs)" by (subst cs [symmetric])
  from unnested_open_prefix [OF kc this] have nk: "CHR ''{'' \<notin> set k" by simp
  show ?thesis
  proof (cases "after_key cs")
    case Nil
    with cs have "cs = k" by simp
    with nk kc substitute_copy [OF nk, of ts "[]"] show ?thesis
      by (auto simp: prefix_def)
  next
    case (Cons x r)
    then have "after_key cs \<noteq> []" by simp
    from key_decomposition(1) [OF this] Cons have cs': "cs = k @ CHR ''}'' # r"
      by (simp add: k_def)
    have "substitute_timestamp ts (k @ CHR ''}'' # r) = k @ CHR ''}'' # substitute_timestamp ts r"
      using substitute_copy [OF nk, of ts "CHR ''}'' # r"]
      by (simp add: substitute_timestamp.simps(2))
    moreover have "k \<noteq> ''timestamp''"
      using assms(2) by (subst (asm) cs') auto
    moreover have "prefix ''{timestamp}'' (CHR ''{'' # k @ CHR ''}'' # substitute_timestamp ts r)
        \<longleftrightarrow> k = ''timestamp''"
      by (rule prefix_placeholder_key [OF kc])
    ultimately show ?thesis by (subst cs') simp
  qed
qed

lemma substitute_no_placeholder:
  "unnested False p \<Longrightarrow> CHR ''{'' \<notin> set ts \<Longrightarrow>
   \<not> occurs_in ''{timestamp}'' (substitute_timestamp ts p)"
proof (induction ts p rule: substitute_timestamp.induct)
  case (1 ts)
  then show ?case by simp
next
  case (2 ts c cs)
  show ?case
  proof (cases "prefix ''{timestamp}'' (c # cs)")
    case True
    then obtain z where z: "c = CHR ''{''" "cs = ''timestamp}'' @ z"
      by (auto simp: prefix_def)
    with "2.prems"(1) have "unnested False (drop 10 cs)" by simp
    with "2.IH"(1) True "2.prems"(2)
    have "\<not> occurs_in ''{timestamp}'' (substitute_timestamp ts (drop 10 cs))" by simp
    then have o: "\<not> occurs_in ''{timestamp}'' (ts @ substitute_timestamp ts (drop 10 cs))"
      by (simp only: occurs_in_skip [OF "2.prems"(2)] not_False_eq_True)
    from True have "substitute_timestamp ts (c # cs) = ts @ substitute_timestamp ts (drop 10 cs)"
      by (subst substitute_timestamp.simps(2)) (simp only: if_True)
    with o show ?thesis by (simp only: not_False_eq_True)
  next
    case False
    have u: "unnested False cs"
      using "2.prems"(1) by (auto split: if_splits intro: unnested_weaken)
    with "2.IH"(2) False "2.prems"(2)
    have ih: "\<not> occurs_in ''{timestamp}'' (substitute_timestamp ts cs)" by simp
    have np: "\<not> prefix ''{timestamp}'' (c # substitute_timestamp ts cs)"
    proof (cases "c = CHR ''{''")
      case c: True
      with "2.prems"(1) have "unnested True cs" by simp
      moreover from False c have "\<not> prefix ''timestamp}'' cs" by simp
      ultimately have "\<not> prefix ''timestamp}'' (substitute_timestamp ts cs)"
        by (rule substitute_open)
      with c show ?thesis by simp
    next
      case c: False
      then show ?thesis by simp
    qed
    from False have eq: "substitute_timestamp ts (c # cs) = c # substitute_timestamp ts cs"
      by (subst substitute_timestamp.simps(2)) (simp only: if_False)
    show ?thesis unfolding eq occurs_in.simps(2) using ih np by blast
  qed
qed

lemma renderOutputPath_no_placeholder:
  assumes "unnested False (render_output_path (job_settings j))"
    and "CHR ''{'' \<notin> set (formatTimestampLocal h (created j))"
  shows "\<not> occurs_in ''{timestamp}'' (renderOutputPath h j)"
  using assms by (simp add: renderOutputPath_def replace_eq_substitute substitute_no_placeholder)

subsection \<open>Path templates\<close>

lemma split_on_no_sep: "\<forall>w \<in> set (split_on c s). c \<notin> set w"
  by (induction s) (auto split: list.splits)

lemma split_on_subset: "w \<in> set (split_on c s) \<Longrightarrow> set w \<subseteq> set s"
proof (induction s arbitrary: w)
  case Nil
  then show ?case by simp
next
  case (Cons a s)
  show ?case
  proof (cases "a = c")
    case True
    with Cons show ?thesis by auto
  next
    case False
    obtain v vs where v: "split_on c s = v # vs"
      by (cases "split_on c s") (simp_all add: split_on_not_Nil)
    with Cons.prems False have "w = a # v \<or> w \<in> set vs" by simp
    moreover from Cons.IH v have "set v \<subseteq> set s" "\<forall>u \<in> set vs. set u \<subseteq> set s" by simp_all
    ultimately show ?thesis by auto
  qed
qed

lemma take1_drop_not: "c \<notin> set w \<Longrightarrow> take 1 (drop n w) \<noteq> [c]"
proof
  assume "c \<notin> set w" and "take 1 (drop n w) = [c]"
  then have "c \<in> set (take 1 (drop n w))" by simp
  then have "c \<in> set w" by (auto dest: in_set_takeD in_set_dropD)
  with \<open>c \<notin> set w\<close> show False by simp
qed

lemma map_slash_id:
  "CHR ''/'' \<notin> set w \<Longrightarrow> map (\<lambda>c. if c = CHR ''/'' then backslash else c) w = w"
  by (induction w) auto

lemma replace_altsep_id: "CHR ''/'' \<notin> set w \<Longrightarrow> replace_altsep fl w = w"
  by (cases fl) (simp_all add: replace_altsep_def map_slash_id)

lemma splitroot_plain:
  assumes "plain fl w"
  shows "splitroot fl (replace_altsep fl w) = ([], [], w)"
proof (cases fl)
  case Posix
  with assms have "CHR ''/'' \<notin> set w" by (simp add: plain_def path_sep_def)
  from take1_drop_not [OF this, of 0] Posix show ?thesis
    by (simp add: splitroot_def splitroot_posix_def replace_altsep_def)
next
  case Windows
  with assms have b: "backslash \<notin> set w" and s: "CHR ''/'' \<notin> set w" and d: "\<not> drive_like w"
    by (simp_all add: plain_def path_sep_def)
  from take1_drop_not [OF b, of 0] have f: "take 1 w \<noteq> [backslash]" by simp
  from take1_drop_not [OF b, of 1] have g: "take 1 (drop 1 w) \<noteq> [backslash]" by simp
  from f g d have "splitroot_windows w = ([], [], w)"
    by (simp add: splitroot_windows_def Let_def)
  with Windows s show ?thesis
    by (simp add: splitroot_def replace_altsep_id)
qed

lemma parse_rev_plain:
  assumes "plain fl w"
  shows "parse_rev fl (w # earlier) = (case parse_rev fl earlier of (d, r, ss) \<Rightarrow> (d, r, ss @ [w]))"
proof -
  from assms have "w \<noteq> []" "w \<noteq> ''.''" "path_sep fl \<notin> set w" by (simp_all add: plain_def)
  with splitroot_plain [OF assms] show ?thesis
    by (simp add: split_on_none)
qed

lemma Path_snoc_plain:
  assumes "plain fl w"
  shows "Path fl (xs @ [w]) = (Path fl xs)\<lparr>pp_segs := pp_segs (Path fl xs) @ [w]\<rparr>"
  by (simp add: Path_def parse_rev_plain [OF assms] case_prod_beta del: parse_rev.simps)

lemma set_split_extended_path:
  "set (snd (split_extended_path s)) \<subseteq> insert backslash (set s)"
  by (auto simp: split_extended_path_def dest: in_set_dropD)

lemma set_splitroot_windows:
  assumes "splitroot_windows p = (drv, root, rel)"
  shows "set rel \<subseteq> insert backslash (set p)"
proof -
  define part where "part = snd (if take 1 (drop 1 p) = [backslash] \<and> take 1 p = [backslash]
                 then split_extended_path p else ([], p))"
  have 1: "set part \<subseteq> insert backslash (set p)"
    using set_split_extended_path [of p] by (auto simp: part_def)
  from assms have "set rel \<subseteq> set part"
    unfolding splitroot_windows_def Let_def part_def [symmetric]
    by (auto split: if_splits dest!: in_set_dropD set_dropWhileD)
  with 1 show ?thesis by blast
qed

lemma no_slash_replace_altsep: "CHR ''/'' \<notin> set (replace_altsep Windows p)"
  by (auto simp: replace_altsep_def backslash_def)

lemma rel_no_altsep:
  assumes "splitroot Windows (replace_altsep Windows p) = (drv, root, rel)"
  shows "CHR ''/'' \<notin> set rel"
proof -
  from assms have "set rel \<subseteq> insert backslash (set (replace_altsep Windows p))"
    by (simp add: splitroot_def set_splitroot_windows)
  with no_slash_replace_altsep [of p] show ?thesis
    by (auto simp: backslash_def)
qed

lemma filtered_segments_clean:
  assumes "splitroot fl (replace_altsep fl p) = (drv, root, rel)"
    and "s \<in> set (filter (\<lambda>x. x \<noteq> [] \<and> x \<noteq> ''.'') (split_on (path_sep fl) rel))"
  shows "s \<noteq> [] \<and> s \<noteq> ''.'' \<and> path_sep fl \<notin> set s \<and> (fl = Windows \<longrightarrow> CHR ''/'' \<notin> set s)"
proof -
  from assms(2) have s: "s \<in> set (split_on (path_sep fl) rel)" "s \<noteq> []" "s \<noteq> ''.''" by simp_all
  from s(1) split_on_no_sep have n: "path_sep fl \<notin> set s" by blast
  have "fl = Windows \<longrightarrow> CHR ''/'' \<notin> set s"
  proof
    assume w: "fl = Windows"
    with assms(1) have "CHR ''/'' \<notin> set rel" by (simp add: rel_no_altsep)
    moreover have "set s \<subseteq> set rel"
      using s(1) by (rule split_on_subset)
    ultimately show "CHR ''/'' \<notin> set s" by blast
  qed
  with s n show ?thesis by simp
qed

lemma parse_rev_segments_clean:
  "s \<in> set (snd (snd (parse_rev fl parts))) \<Longrightarrow>
   s \<noteq> [] \<and> s \<noteq> ''.'' \<and> path_sep fl \<notin> set s \<and> (fl = Windows \<longrightarrow> CHR ''/'' \<notin> set s)"
proof (induction parts arbitrary: s)
  case Nil
  then show ?case by simp
next
  case (Cons part earlier)
  show ?case
  proof (cases "part = []")
    case True
    with Cons.prems have "s \<in> set (snd (snd (parse_rev fl earlier)))" by simp
    then show ?thesis by (rule Cons.IH)
  next
    case False
    obtain drv root rel where sp: "splitroot fl (replace_altsep fl part) = (drv, root, rel)"
      by (cases "splitroot fl (replace_altsep fl part)")
    let ?segs = "filter (\<lambda>x. x \<noteq> [] \<and> x \<noteq> ''.'') (split_on (path_sep fl) rel)"
    obtain d r ss where pe: "parse_rev fl earlier = (d, r, ss)"
      by (cases "parse_rev fl earlier")
    from Cons.prems False sp pe have "s \<in> set ?segs \<or> s \<in> set ss"
      by (auto simp: Let_def split: if_splits)
    then show ?thesis
    proof
      assume "s \<in> set ?segs"
      with sp show ?thesis by (rule filtered_segments_clean)
    next
      assume "s \<in> set ss"
      with pe Cons.IH show ?thesis by simp
    qed
  qed
qed

lemma pname_clean:
  "pname (Path fl parts) = []
   \<or> (pname (Path fl parts) \<noteq> ''.'' \<and> path_sep fl \<notin> set (pname (Path fl parts))
      \<and> (fl = Windows \<longrightarrow> CHR ''/'' \<notin> set (pname (Path fl parts))))"
proof (cases "pp_segs (Path fl parts) = []")
  case True
  then show ?thesis by (simp add: pname_def)
next
  case False
  then have "last (pp_segs (Path fl parts)) \<in> set (pp_segs (Path fl parts))"
    by (rule last_in_set)
  moreover have "pp_segs (Path fl parts) = snd (snd (parse_rev fl (rev parts)))"
    by (simp add: Path_def case_prod_beta)
  ultimately have "last (pp_segs (Path fl parts)) \<in> set (snd (snd (parse_rev fl (rev parts))))"
    by simp
  from parse_rev_segments_clean [OF this] False show ?thesis
    by (simp add: pname_def)
qed

lemma drive_like_filename:
  assumes "drive_like (w @ ''_######'')"
  shows "drive_like w"
proof (cases w)
  case Nil
  with assms show ?thesis by (simp add: drive_like_def)
next
  case (Cons a v)
  with assms show ?thesis by (cases v) (simp_all add: drive_like_def)
qed

lemma plain_filename_segment:
  assumes "fl = Windows \<longrightarrow> \<not> drive_like (pname (Path fl [filepath]))"
  shows "plain fl (filename_segment fl filepath)"
proof -
  let ?n = "pname (Path fl [filepath])"
  have c: "path_sep fl \<notin> set ?n \<and> (fl = Windows \<longrightarrow> CHR ''/'' \<notin> set ?n)"
    using pname_clean [of fl "[filepath]"] by auto
  have s: "path_sep fl \<noteq> CHR ''_''" "path_sep fl \<noteq> CHR ''#''"
    by (cases fl; simp add: path_sep_def backslash_def)+
  have "length (?n @ ''_######'') \<ge> 7" by simp
  then have d: "?n @ ''_######'' \<noteq> ''.''" by auto
  from assms drive_like_filename [of ?n] have "fl = Windows \<longrightarrow> \<not> drive_like (?n @ ''_######'')"
    by blast
  with c s d show ?thesis
    by (simp add: plain_def filename_segment_def)
qed

lemma plain_timestamp: "plain fl ''{timestamp}''"
  by (cases fl) (simp_all add: plain_def path_sep_def backslash_def drive_like_def)

lemma filename_segment_not_timestamp: "filename_segment fl filepath \<noteq> ''{timestamp}''"
proof
  assume "filename_segment fl filepath = ''{timestamp}''"
  then have "last (filename_segment fl filepath) = CHR ''}''" by simp
  then show False by (simp add: filename_segment_def)
qed

lemma join_with_snoc:
  "join_with [c] (xs @ [y]) = concat (map (\<lambda>s. s @ [c]) xs) @ y"
  by (induction "[c]" xs rule: join_with.induct) simp_all

lemma pstr_snoc:
  assumes "y \<noteq> []"
  shows "pstr fl (p\<lparr>pp_segs := pp_segs p @ [y]\<rparr>) = dir_text fl p @ y"
  using assms by (simp add: pstr_def dir_text_def join_with_snoc)

lemma dir_text_snoc:
  "dir_text fl (p\<lparr>pp_segs := pp_segs p @ [y]\<rparr>) = dir_text fl p @ y @ [path_sep fl]"
  by (simp add: dir_text_def)

lemma template_of_base:
  assumes "plain fl w"
  shows "pp_segs (Path fl (xs @ (if stable_dir then [] else [''{timestamp}'']) @ [w]))
           = pp_segs (Path fl xs) @ (if stable_dir then [] else [''{timestamp}'']) @ [w]"
    and "pp_drv (Path fl (xs @ (if stable_dir then [] else [''{timestamp}'']) @ [w]))
           = pp_drv (Path fl xs)"
    and "pp_root (Path fl (xs @ (if stable_dir then [] else [''{timestamp}'']) @ [w]))
           = pp_root (Path fl xs)"
    and "pstr fl (Path fl (xs @ (if stable_dir then [] else [''{timestamp}'']) @ [w]))
           = dir_text fl (Path fl xs)
             @ (if stable_dir then [] else ''{timestamp}'' @ [path_sep fl]) @ w"
proof -
  from assms have n: "w \<noteq> []" by (simp add: plain_def)
  have a: "Path fl (xs @ [w]) = (Path fl xs)\<lparr>pp_segs := pp_segs (Path fl xs) @ [w]\<rparr>"
    by (rule Path_snoc_plain [OF assms])
  have t: "Path fl (xs @ [''{timestamp}''])
      = (Path fl xs)\<lparr>pp_segs := pp_segs (Path fl xs) @ [''{timestamp}'']\<rparr>"
    by (rule Path_snoc_plain [OF plain_timestamp])
  have b: "Path fl (xs @ [''{timestamp}'', w])
      = (Path fl (xs @ [''{timestamp}'']))\<lparr>pp_segs := pp_segs (Path fl (xs @ [''{timestamp}'']))
          @ [w]\<rparr>"
    using Path_snoc_plain [OF assms, of "xs @ [''{timestamp}'']"] by simp
  show "pp_segs (Path fl (xs @ (if stable_dir then [] else [''{timestamp}'']) @ [w]))
           = pp_segs (Path fl xs) @ (if stable_dir then [] else [''{timestamp}'']) @ [w]"
    by (simp add: a b t)
  show "pp_drv (Path fl (xs @ (if stable_dir then [] else [''{timestamp}'']) @ [w]))
           = pp_drv (Path fl xs)"
    by (simp add: a b t)
  show "pp_root (Path fl (xs @ (if stable_dir then [] else [''{timestamp}'']) @ [w]))
           = pp_root (Path fl xs)"
    by (simp add: a b t)
  show "pstr fl (Path fl (xs @ (if stable_dir then [] else [''{timestamp}'']) @ [w]))
           = dir_text fl (Path fl xs)
             @ (if stable_dir then [] else ''{timestamp}'' @ [path_sep fl]) @ w"
  proof (cases stable_dir)
    case True
    with n show ?thesis by (simp add: a pstr_snoc)
  next
    case False
    have "pstr fl (Path fl (xs @ [''{timestamp}'', w]))
        = dir_text fl (Path fl (xs @ [''{timestamp}''])) @ w"
      unfolding b using n by (rule pstr_snoc)
    also have "dir_text fl (Path fl (xs @ [''{timestamp}'']))
        = dir_text fl (Path fl xs) @ ''{timestamp}'' @ [path_sep fl]"
      unfolding t by (rule dir_text_snoc)
    finally show ?thesis using False by simp
  qed
qed

lemma template_BlenderPath_eq:
  "template_BlenderPath fl stable_dir filepath
     = Path fl (py_parts (pparent (Path fl [filepath]))
                @ (if stable_dir then [] else [''{timestamp}'']) @ [filename_segment fl filepath])"
  by (simp add: template_BlenderPath_def)

lemma template_RootBased_eq:
  "template_RootBased fl stable_dir root_args dirs_args jobname filepath
     = Path fl ((root_args @ dirs_args @ [jobname])
                @ (if stable_dir then [] else [''{timestamp}'']) @ [filename_segment fl filepath])"
  by (simp add: template_RootBased_def)

lemma splitroot_posix_drv: "fst (splitroot_posix s) = []"
  by (simp add: splitroot_posix_def Let_def)

lemma splitroot_posix_root: "fst (snd (splitroot_posix s)) \<in> {[], ''/'', ''//''}"
  by (simp add: splitroot_posix_def Let_def)

lemma find_drive_posix: "find_drive Posix parts = []"
proof (induction parts)
  case Nil
  then show ?case by simp
next
  case (Cons part earlier)
  with splitroot_posix_drv [of part] show ?case
    by (auto simp: splitroot_def replace_altsep_def split: prod.splits)
qed

lemma parse_rev_posix:
  "fst (parse_rev Posix parts) = [] \<and> fst (snd (parse_rev Posix parts)) \<in> {[], ''/'', ''//''}"
proof (induction parts)
  case Nil
  then show ?case by simp
next
  case (Cons part earlier)
  obtain drv root rel where sp: "splitroot_posix part = (drv, root, rel)"
    by (cases "splitroot_posix part")
  with splitroot_posix_drv [of part] splitroot_posix_root [of part]
  have "drv = []" "root \<in> {[], ''/'', ''//''}" by simp_all
  with Cons sp show ?case
    by (auto simp: splitroot_def replace_altsep_def Let_def find_drive_posix split: prod.splits)
qed

lemma parse_rev_plain_list:
  "\<forall>s \<in> set ss. plain fl s \<Longrightarrow>
   parse_rev fl (rev ss @ earlier) = (case parse_rev fl earlier of (d, r, zs) \<Rightarrow> (d, r, zs @ ss))"
proof (induction ss rule: rev_induct)
  case Nil
  then show ?case by (simp add: case_prod_beta)
next
  case (snoc w ss)
  then have w: "plain fl w" and ss: "\<forall>s \<in> set ss. plain fl s" by simp_all
  have "parse_rev fl (rev (ss @ [w]) @ earlier) = parse_rev fl (w # (rev ss @ earlier))"
    by simp
  also have "\<dots> = (case parse_rev fl (rev ss @ earlier) of (d, r, zs) \<Rightarrow> (d, r, zs @ [w]))"
    by (rule parse_rev_plain [OF w])
  finally show ?case using snoc.IH [OF ss] by (simp add: case_prod_beta)
qed

lemma parse_rev_posix_anchor:
  "root \<in> {''/'', ''//''} \<Longrightarrow> parse_rev Posix [root] = ([], root, [])"
  by (auto simp: splitroot_def splitroot_posix_def replace_altsep_def path_sep_def)

lemma Path_posix_reparse:
  assumes "pp_drv p = []" and "pp_root p \<in> {[], ''/'', ''//''}"
    and "\<forall>s \<in> set (pp_segs p). plain Posix s"
  shows "Path Posix (py_parts p) = p"
proof (cases "pp_root p = []")
  case True
  with assms(1) have "py_parts p = pp_segs p" by (simp add: py_parts_def)
  with parse_rev_plain_list [OF assms(3), of "[]"] assms(1) True show ?thesis
    by (simp add: Path_def)
next
  case False
  with assms(1) have "rev (py_parts p) = rev (pp_segs p) @ [pp_root p]"
    by (simp add: py_parts_def)
  moreover from False assms(2) have "parse_rev Posix [pp_root p] = ([], pp_root p, [])"
    by (intro parse_rev_posix_anchor) simp
  ultimately show ?thesis
    using parse_rev_plain_list [OF assms(3), of "[pp_root p]"] assms(1)
    by (simp add: Path_def)
qed

lemma Path_posix_parent:
  "Path Posix (py_parts (pparent (Path Posix parts))) = pparent (Path Posix parts)"
proof (rule Path_posix_reparse)
  let ?p = "Path Posix parts"
  have p: "pp_drv ?p = fst (parse_rev Posix (rev parts))"
    "pp_root ?p = fst (snd (parse_rev Posix (rev parts)))"
    "pp_segs ?p = snd (snd (parse_rev Posix (rev parts)))"
    by (simp_all add: Path_def case_prod_beta)
  from p(1) parse_rev_posix [of "rev parts"] show "pp_drv (pparent ?p) = []"
    by (simp add: pparent_def)
  from p(2) parse_rev_posix [of "rev parts"] show "pp_root (pparent ?p) \<in> {[], ''/'', ''//''}"
    by (simp add: pparent_def)
  show "\<forall>s \<in> set (pp_segs (pparent ?p)). plain Posix s"
  proof
    fix s assume "s \<in> set (pp_segs (pparent ?p))"
    then have "s \<in> set (pp_segs ?p)"
      by (auto simp: pparent_def dest: in_set_butlastD split: if_splits)
    with p(3) have "s \<in> set (snd (snd (parse_rev Posix (rev parts))))" by simp
    from parse_rev_segments_clean [OF this] show "plain Posix s"
      by (simp add: plain_def)
  qed
qed

subsection \<open>The chunk size\<close>

lemma chunker_rejects:
  "chunk_size s \<le> 0 \<Longrightarrow> authorRenderTasks (spec_chunking h) s rd ro = Inl InvalidChunkSize"
  by (simp add: authorRenderTasks_def spec_chunking_def frameChunker_spec_def)

lemma resolve_and_author_rejects:
  assumes "chunk_size (job_settings j) \<le> 0"
  shows "snd (resolve_and_author (spec_chunking h) j) = Some InvalidChunkSize"
    and "tasks (fst (resolve_and_author (spec_chunking h) j)) = tasks j"
  using assms by (simp_all add: resolve_and_author_cases chunker_rejects)

section \<open>Properties\<close>

subsection \<open>C1: the output path template\<close>

text \<open>
  Claim C1 says that for every job the template ends in the filename segment
  \<open><prefix>_######\<close>, that with \<open>stable_directory\<close> the template has no
  timestamp segment, and that without it a \<open>{timestamp}\<close> segment stands
  immediately before the filename segment, in both variants.

  It fails in two ways.  Where the base directory has a segment
  \<open>{timestamp}\<close> of its own, the template has one with \<open>stable_directory\<close>
  on: on POSIX the Blender output path \<open>/r/{timestamp}/A\<close> gives
  \<open>/r/{timestamp}/A_######\<close>.  On Windows a prefix that starts with a letter
  and a colon is read as a drive when it is the last argument of \<^verbatim>\<open>Path\<close>,
  and the arguments before it are dropped: the Blender output path \<open>a/b:c\<close>
  has the name \<open>b:c\<close>, and with \<open>stable_directory\<close> off the template is
  \<open>b:c_######\<close>, the drive \<open>b:\<close> and the one segment \<open>c_######\<close>, with
  neither the base directory nor \<open>{timestamp}\<close>.
\<close>

theorem stable_template_keeps_timestamp_segment:
  "''{timestamp}'' \<in> set (pp_segs (template_BlenderPath Posix True ''/r/{timestamp}/A''))
   \<and> render_output_path_eval_BlenderPath Posix True ''/r/{timestamp}/A'' = ''/r/{timestamp}/A_######''
   \<and> pname (Path Windows [''a/b:c'']) = ''b:c''
   \<and> render_output_path_eval_BlenderPath Windows False ''a/b:c'' = ''b:c_######''
   \<and> pp_drv (template_BlenderPath Windows False ''a/b:c'') = ''b:''
   \<and> pp_segs (template_BlenderPath Windows False ''a/b:c'') = [''c_######'']"
  by code_simp

text \<open>
  C1 as amended, for both flavours of \<^verbatim>\<open>pathlib\<close> and both variants, when on
  Windows the name of the Blender output path does not start with a letter
  and a colon.  The base directory is \<^verbatim>\<open>Path(Path(filepath).parent)\<close> in
  BeFrames_BlenderPath, which on POSIX is the parent itself, and
  \<^verbatim>\<open>Path(abspath(root), last_n_dir_parts(n), jobname)\<close> in BeFrames_RootBased.
  The text the setting holds is the base directory with a separator behind
  each of its segments, then \<open>{timestamp}\<close> and a separator if and only if
  \<open>stable_directory\<close> is off, then the filename segment, which is the name of
  the Blender output path followed by \<open>_######\<close>.  The path object has the
  drive and the root of the base directory, and its segments are those of the
  base directory, then \<open>{timestamp}\<close> if and only if \<open>stable_directory\<close> is
  off, then the filename segment.  So with \<open>stable_directory\<close> on no segment
  is added before the filename segment, and the template has a
  \<open>{timestamp}\<close> segment exactly when the base directory has one.
\<close>

theorem template_segments:
  assumes "fl = Windows \<longrightarrow> \<not> drive_like (pname (Path fl [filepath]))"
  shows "render_output_path_eval_BlenderPath fl stable_dir filepath
           = dir_text fl (Path fl (py_parts (pparent (Path fl [filepath]))))
             @ (if stable_dir then [] else ''{timestamp}'' @ [path_sep fl])
             @ filename_segment fl filepath
       \<and> pp_segs (template_BlenderPath fl stable_dir filepath)
           = pp_segs (Path fl (py_parts (pparent (Path fl [filepath]))))
             @ (if stable_dir then [] else [''{timestamp}'']) @ [filename_segment fl filepath]
       \<and> pp_drv (template_BlenderPath fl stable_dir filepath)
           = pp_drv (Path fl (py_parts (pparent (Path fl [filepath]))))
       \<and> pp_root (template_BlenderPath fl stable_dir filepath)
           = pp_root (Path fl (py_parts (pparent (Path fl [filepath]))))
       \<and> render_output_path_eval_RootBased fl stable_dir root_args dirs_args jobname filepath
           = dir_text fl (Path fl (root_args @ dirs_args @ [jobname]))
             @ (if stable_dir then [] else ''{timestamp}'' @ [path_sep fl])
             @ filename_segment fl filepath
       \<and> pp_segs (template_RootBased fl stable_dir root_args dirs_args jobname filepath)
           = pp_segs (Path fl (root_args @ dirs_args @ [jobname]))
             @ (if stable_dir then [] else [''{timestamp}'']) @ [filename_segment fl filepath]
       \<and> pp_drv (template_RootBased fl stable_dir root_args dirs_args jobname filepath)
           = pp_drv (Path fl (root_args @ dirs_args @ [jobname]))
       \<and> pp_root (template_RootBased fl stable_dir root_args dirs_args jobname filepath)
           = pp_root (Path fl (root_args @ dirs_args @ [jobname]))
       \<and> filename_segment fl filepath = pname (Path fl [filepath]) @ ''_######''
       \<and> (fl = Posix \<longrightarrow>
            Path fl (py_parts (pparent (Path fl [filepath]))) = pparent (Path fl [filepath]))
       \<and> (stable_dir \<longrightarrow>
            (''{timestamp}'' \<in> set (pp_segs (template_BlenderPath fl stable_dir filepath))
               \<longleftrightarrow> ''{timestamp}''
                     \<in> set (pp_segs (Path fl (py_parts (pparent (Path fl [filepath]))))))
          \<and> (''{timestamp}''
                 \<in> set (pp_segs (template_RootBased fl stable_dir root_args dirs_args jobname filepath))
               \<longleftrightarrow> ''{timestamp}'' \<in> set (pp_segs (Path fl (root_args @ dirs_args @ [jobname])))))"
proof -
  note w = plain_filename_segment [OF assms]
  note b = template_of_base [OF w, of "py_parts (pparent (Path fl [filepath]))" stable_dir,
      folded template_BlenderPath_eq]
  note r = template_of_base [OF w, of "root_args @ dirs_args @ [jobname]" stable_dir,
      folded template_RootBased_eq]
  from filename_segment_not_timestamp [of fl filepath]
  have n: "''{timestamp}'' \<noteq> filename_segment fl filepath" by (rule not_sym)
  have p: "fl = Posix \<longrightarrow>
      Path fl (py_parts (pparent (Path fl [filepath]))) = pparent (Path fl [filepath])"
    by (simp add: Path_posix_parent)
  have s: "stable_dir \<longrightarrow>
            (''{timestamp}'' \<in> set (pp_segs (template_BlenderPath fl stable_dir filepath))
               \<longleftrightarrow> ''{timestamp}''
                     \<in> set (pp_segs (Path fl (py_parts (pparent (Path fl [filepath]))))))
          \<and> (''{timestamp}''
                 \<in> set (pp_segs (template_RootBased fl stable_dir root_args dirs_args jobname filepath))
               \<longleftrightarrow> ''{timestamp}'' \<in> set (pp_segs (Path fl (root_args @ dirs_args @ [jobname]))))"
  proof
    assume st: stable_dir
    from b(1) r(1) st n
    show "(''{timestamp}'' \<in> set (pp_segs (template_BlenderPath fl stable_dir filepath))
               \<longleftrightarrow> ''{timestamp}''
                     \<in> set (pp_segs (Path fl (py_parts (pparent (Path fl [filepath]))))))
          \<and> (''{timestamp}''
                 \<in> set (pp_segs (template_RootBased fl stable_dir root_args dirs_args jobname filepath))
               \<longleftrightarrow> ''{timestamp}'' \<in> set (pp_segs (Path fl (root_args @ dirs_args @ [jobname]))))"
      by simp
  qed
  have f: "filename_segment fl filepath = pname (Path fl [filepath]) @ ''_######''"
    by (simp add: filename_segment_def)
  from b r f p s show ?thesis
    unfolding render_output_path_eval_BlenderPath_def render_output_path_eval_RootBased_def
    by blast
qed

theorem template_segments_witness:
  "\<not> drive_like (pname (Path Windows [''Z:'' @ [backslash] @ ''Renders'' @ [backslash] @ ''Anim03'']))
   \<and> render_output_path_eval_BlenderPath Windows False
        (''Z:'' @ [backslash] @ ''Renders'' @ [backslash] @ ''Anim03'')
       = ''Z:'' @ [backslash] @ ''Renders'' @ [backslash] @ ''{timestamp}'' @ [backslash]
         @ ''Anim03_######''
   \<and> render_output_path_eval_BlenderPath Windows True
        (''Z:'' @ [backslash] @ ''Renders'' @ [backslash] @ ''Anim03'')
       = ''Z:'' @ [backslash] @ ''Renders'' @ [backslash] @ ''Anim03_######''
   \<and> pp_segs (template_BlenderPath Windows False
        (''Z:'' @ [backslash] @ ''Renders'' @ [backslash] @ ''Anim03''))
       = [''Renders'', ''{timestamp}'', ''Anim03_######'']
   \<and> render_output_path_eval_BlenderPath Posix True ''/proj/shot010/render/Anim03''
       = ''/proj/shot010/render/Anim03_######''
   \<and> render_output_path_eval_BlenderPath Posix False ''/proj/shot010/render/Anim03''
       = ''/proj/shot010/render/{timestamp}/Anim03_######''
   \<and> pp_segs (template_BlenderPath Posix True ''/proj/shot010/render/Anim03'')
       = [''proj'', ''shot010'', ''render'', ''Anim03_######'']
   \<and> ''{timestamp}'' \<notin> set (pp_segs (template_BlenderPath Posix True ''/proj/shot010/render/Anim03''))
   \<and> render_output_path_eval_RootBased Posix False [''/farm''] [''projects'', ''shotA'']
        ''MyJob'' ''//render/Anim03''
       = ''/farm/projects/shotA/MyJob/{timestamp}/Anim03_######''
   \<and> pp_segs (template_RootBased Posix False [''/farm''] [''projects'', ''shotA'']
        ''MyJob'' ''//render/Anim03'')
       = [''farm'', ''projects'', ''shotA'', ''MyJob'', ''{timestamp}'', ''Anim03_######'']"
proof -
  let ?z = "''Z:'' @ [backslash] @ ''Renders'' @ [backslash] @ ''Anim03''"
  let ?p = "''/proj/shot010/render/Anim03''"
  have d: "\<not> drive_like (pname (Path Windows [?z]))"
    by code_simp
  have zb: "dir_text Windows (Path Windows (py_parts (pparent (Path Windows [?z]))))
      = ''Z:'' @ [backslash] @ ''Renders'' @ [backslash]"
    by code_simp
  have zs: "pp_segs (Path Windows (py_parts (pparent (Path Windows [?z])))) = [''Renders'']"
    by code_simp
  have zf: "filename_segment Windows ?z = ''Anim03_######''"
    by code_simp
  have pb: "dir_text Posix (Path Posix (py_parts (pparent (Path Posix [?p]))))
      = ''/proj/shot010/render/''"
    by code_simp
  have ps: "pp_segs (Path Posix (py_parts (pparent (Path Posix [?p]))))
      = [''proj'', ''shot010'', ''render'']"
    by code_simp
  have pf: "filename_segment Posix ?p = ''Anim03_######''"
    by code_simp
  have rb: "dir_text Posix (Path Posix ([''/farm''] @ [''projects'', ''shotA''] @ [''MyJob'']))
      = ''/farm/projects/shotA/MyJob/''"
    by code_simp
  have rs: "pp_segs (Path Posix ([''/farm''] @ [''projects'', ''shotA''] @ [''MyJob'']))
      = [''farm'', ''projects'', ''shotA'', ''MyJob'']"
    by code_simp
  have rf: "filename_segment Posix ''//render/Anim03'' = ''Anim03_######''"
    by code_simp
  have s: "path_sep Windows = backslash" "path_sep Posix = CHR ''/''"
    by (simp_all add: path_sep_def)
  from s d zb zs zf pb ps pf rb rs rf
    template_segments [of Windows ?z False] template_segments [of Windows ?z True]
    template_segments [of Posix ?p True] template_segments [of Posix ?p False]
    template_segments [of Posix "''//render/Anim03''" False "[''/farm'']"
      "[''projects'', ''shotA'']" "''MyJob''"]
  show ?thesis by simp
qed

subsection \<open>C2: one timestamp for all tasks of a job\<close>

text \<open>
  Claim C2 says that the path is resolved once, from the creation time of the
  job, before any task is authored, so that every task has the same output
  directory, and that with \<open>stable_directory\<close> off the text \<open>{timestamp}\<close>
  never stands in the resolved path.

  The last part fails where a \<open>{\<close> that is not closed stands before the
  placeholder: for the Blender output path \<open>/proj/{wip/Anim\<close> the pattern
  matches \<open>{wip/{timestamp}\<close> as one placeholder with the key
  \<open>wip/{timestamp\<close>, which is kept as it is.
\<close>

theorem unclosed_brace_keeps_placeholder:
  "\<not> stable_directory example_settings
   \<and> render_output_path_eval_BlenderPath Posix False ''/proj/{wip/Anim''
       = ''/proj/{wip/{timestamp}/Anim_######''
   \<and> snd (compileJob_BlenderPath example_host
        (example_job\<lparr>job_settings := example_settings
           \<lparr>render_output_path := render_output_path_eval_BlenderPath Posix False ''/proj/{wip/Anim''\<rparr>\<rparr>))
       = None
   \<and> renderOutputPath example_host
        (example_job\<lparr>job_settings := example_settings
           \<lparr>render_output_path := render_output_path_eval_BlenderPath Posix False ''/proj/{wip/Anim''\<rparr>\<rparr>)
       = ''/proj/{wip/{timestamp}/Anim_######''
   \<and> occurs_in ''{timestamp}''
        (renderOutputPath example_host
          (example_job\<lparr>job_settings := example_settings
             \<lparr>render_output_path := render_output_path_eval_BlenderPath Posix False ''/proj/{wip/Anim''\<rparr>\<rparr>))"
  by code_simp

text \<open>
  C2 as amended: when compilation succeeds, the setting
  \<^verbatim>\<open>render_output_path\<close> of the job is the path resolved once from the
  template and the creation time, and the command of every task added has the
  same \<^verbatim>\<open>--render-output\<close> value, built from that one path; when no \<open>{\<close>
  of the template stands behind a \<open>{\<close> still open and the formatted time has
  no \<open>{\<close>, the resolved path is the template with each \<open>{timestamp}\<close>
  replaced by the formatted creation time, and \<open>{timestamp}\<close> does not stand
  in it.
\<close>

theorem timestamp_sampled_once:
  assumes "compile = compileJob_BlenderPath \<or> compile = compileJob_RootBased"
    and "compile h j = (j', None)"
  shows "render_output_path (job_settings j') = renderOutputPath h j
       \<and> (\<exists>ts. tasks j' = tasks j @ ts
            \<and> (\<forall>t \<in> set ts. \<exists>c chunk. commands t = [c]
                 \<and> args (command_parameters c) =
                     baseArgs (job_settings j) @ overwriteArgs (job_settings j)
                     @ [''--render-output'',
                        path_join h (path_dirname h (renderOutputPath h j))
                          (path_basename h (renderOutputPath h j)),
                        ''--render-format'', format (job_settings j),
                        ''--render-frame'', replaceAll_dash chunk]))
       \<and> (unnested False (render_output_path (job_settings j))
            \<and> CHR ''{'' \<notin> set (formatTimestampLocal h (created j))
          \<longrightarrow> renderOutputPath h j
                = substitute_timestamp (formatTimestampLocal h (created j))
                    (render_output_path (job_settings j))
              \<and> \<not> occurs_in ''{timestamp}'' (renderOutputPath h j))"
proof -
  let ?ro = "renderOutputPath h j"
  let ?s = "(job_settings j)\<lparr>render_output_path := ?ro\<rparr>"
  from resolve_and_author_None [OF compile_None [OF assms]] obtain ts where
    ts: "authorRenderTasks h ?s (path_dirname h ?ro) ?ro = Inr ts" and
    j': "j' = j\<lparr>job_settings := ?s, tasks := tasks j @ ts\<rparr>"
    by blast
  from authorRenderTasks_Inr [OF ts] obtain chunks where
    all: "list_all2 (\<lambda>chunk t. \<exists>k. frameCount h chunk = Inr k
        \<and> t = render_task h ?s (path_dirname h ?ro) ?ro chunk k) chunks ts"
    by blast
  have "\<forall>t \<in> set ts. \<exists>c chunk. commands t = [c]
                 \<and> args (command_parameters c) =
                     baseArgs (job_settings j) @ overwriteArgs (job_settings j)
                     @ [''--render-output'', path_join h (path_dirname h ?ro) (path_basename h ?ro),
                        ''--render-format'', format (job_settings j),
                        ''--render-frame'', replaceAll_dash chunk]"
  proof
    fix t assume "t \<in> set ts"
    from list_all2_set2 [OF all this] obtain chunk k where
      t: "t = render_task h ?s (path_dirname h ?ro) ?ro chunk k" by blast
    have "args (command_parameters (author_Command ''blender-render''
        \<lparr>exe = ''{blender}'', exeArgs = ''{blenderArgs}'', param_blendfile = blendfile ?s,
         args = render_args h ?s (path_dirname h ?ro) ?ro chunk\<rparr> k)) =
        baseArgs (job_settings j) @ overwriteArgs (job_settings j)
         @ [''--render-output'', path_join h (path_dirname h ?ro) (path_basename h ?ro),
            ''--render-format'', format (job_settings j),
            ''--render-frame'', replaceAll_dash chunk]"
      by (simp add: author_Command_def render_args_def baseArgs_def overwriteArgs_def)
    with t show "\<exists>c chunk. commands t = [c]
                 \<and> args (command_parameters c) =
                     baseArgs (job_settings j) @ overwriteArgs (job_settings j)
                     @ [''--render-output'', path_join h (path_dirname h ?ro) (path_basename h ?ro),
                        ''--render-format'', format (job_settings j),
                        ''--render-frame'', replaceAll_dash chunk]"
      by (simp only: render_task_fields(3)) blast
  qed
  moreover from j' have "tasks j' = tasks j @ ts" "render_output_path (job_settings j') = ?ro"
    by simp_all
  moreover have "unnested False (render_output_path (job_settings j)) \<Longrightarrow>
      ?ro = substitute_timestamp (formatTimestampLocal h (created j))
              (render_output_path (job_settings j))"
    by (simp add: renderOutputPath_def replace_eq_substitute)
  ultimately show ?thesis
    using renderOutputPath_no_placeholder [of j h] by blast
qed

theorem timestamp_sampled_once_witness:
  "compileJob_BlenderPath example_host example_job
     = (fst (compileJob_BlenderPath example_host example_job), None)
   \<and> unnested False (render_output_path (job_settings example_job))
   \<and> CHR ''{'' \<notin> set (formatTimestampLocal example_host (created example_job))
   \<and> render_output_path (job_settings example_job)
       = ''/proj/shot010/render/{timestamp}/Anim03_######''
   \<and> renderOutputPath example_host example_job = ''/proj/shot010/render/1204/Anim03_######''
   \<and> \<not> occurs_in ''{timestamp}'' (renderOutputPath example_host example_job)
   \<and> render_output_path (job_settings (fst (compileJob_BlenderPath example_host example_job)))
       = renderOutputPath example_host example_job
   \<and> (\<exists>ts. tasks (fst (compileJob_BlenderPath example_host example_job))
              = tasks example_job @ ts
          \<and> (\<forall>t \<in> set ts. \<exists>c chunk. commands t = [c]
                 \<and> args (command_parameters c) =
                     baseArgs (job_settings example_job) @ overwriteArgs (job_settings example_job)
                     @ [''--render-output'',
                        path_join example_host
                          (path_dirname example_host (renderOutputPath example_host example_job))
                          (path_basename example_host (renderOutputPath example_host example_job)),
                        ''--render-format'', format (job_settings example_job),
                        ''--render-frame'', replaceAll_dash chunk]))"
proof -
  have "snd (compileJob_BlenderPath example_host example_job) = None"
    by code_simp
  then have c: "compileJob_BlenderPath example_host example_job
      = (fst (compileJob_BlenderPath example_host example_job), None)"
    by (simp add: prod_eq_iff)
  have u: "unnested False (render_output_path (job_settings example_job))"
    by code_simp
  have n: "CHR ''{'' \<notin> set (formatTimestampLocal example_host (created example_job))"
    by code_simp
  have t: "render_output_path (job_settings example_job)
       = ''/proj/shot010/render/{timestamp}/Anim03_######''"
    by code_simp
  have r: "renderOutputPath example_host example_job = ''/proj/shot010/render/1204/Anim03_######''"
    by code_simp
  note th = timestamp_sampled_once [where compile = compileJob_BlenderPath and h = example_host
      and j = example_job and j' = "fst (compileJob_BlenderPath example_host example_job)"]
  from th c have a: "render_output_path
      (job_settings (fst (compileJob_BlenderPath example_host example_job)))
       = renderOutputPath example_host example_job"
    by blast
  from th c u n have d: "\<not> occurs_in ''{timestamp}'' (renderOutputPath example_host example_job)"
    by blast
  from th c have b: "\<exists>ts. tasks (fst (compileJob_BlenderPath example_host example_job))
              = tasks example_job @ ts
          \<and> (\<forall>t \<in> set ts. \<exists>c chunk. commands t = [c]
                 \<and> args (command_parameters c) =
                     baseArgs (job_settings example_job) @ overwriteArgs (job_settings example_job)
                     @ [''--render-output'',
                        path_join example_host
                          (path_dirname example_host (renderOutputPath example_host example_job))
                          (path_basename example_host (renderOutputPath example_host example_job)),
                        ''--render-format'', format (job_settings example_job),
                        ''--render-frame'', replaceAll_dash chunk])"
    by blast
  from c u n t r d a b show ?thesis by blast
qed

subsection \<open>C3: resolution of a template\<close>

text \<open>
  Claim C3 says that resolution replaces each occurrence of \<open>{timestamp}\<close>
  by the formatted creation time and leaves every other placeholder as it is,
  for every template.

  It fails for a template in which \<open>{timestamp}\<close> stands behind a \<open>{\<close>
  still open: in \<open>/r/{{timestamp}/A_######\<close> the pattern matches
  \<open>{{timestamp}\<close>, the key is \<open>{timestamp\<close> and nothing is replaced.
\<close>

theorem nested_brace_not_substituted:
  "renderOutputPath example_host
        (example_job\<lparr>job_settings := example_settings
           \<lparr>render_output_path := ''/r/{{timestamp}/A_######''\<rparr>\<rparr>)
       = ''/r/{{timestamp}/A_######''
   \<and> substitute_timestamp (formatTimestampLocal example_host (created example_job))
        ''/r/{{timestamp}/A_######''
       = ''/r/{1204/A_######''"
  by code_simp

text \<open>
  C3 as amended: for every template in which no \<open>{\<close> stands behind a \<open>{\<close>
  still open, \<^verbatim>\<open>renderOutputPath\<close> returns the template with each
  occurrence of \<open>{timestamp}\<close> replaced by the formatted creation time and
  every other character, so every other placeholder, unchanged.  The function
  is total: no template makes it raise.
\<close>

theorem resolution_substitutes_timestamp:
  assumes "unnested False (render_output_path (job_settings j))"
  shows "renderOutputPath h j
         = substitute_timestamp (formatTimestampLocal h (created j))
             (render_output_path (job_settings j))"
  using assms by (simp add: renderOutputPath_def replace_eq_substitute)

theorem resolution_substitutes_timestamp_witness:
  "unnested False (render_output_path (job_settings
      (example_job\<lparr>job_settings := example_settings
         \<lparr>render_output_path := ''/r/{jobname}/{timestamp}/A_######''\<rparr>\<rparr>)))
   \<and> renderOutputPath example_host
        (example_job\<lparr>job_settings := example_settings
           \<lparr>render_output_path := ''/r/{jobname}/{timestamp}/A_######''\<rparr>\<rparr>)
       = substitute_timestamp (formatTimestampLocal example_host (created
           (example_job\<lparr>job_settings := example_settings
             \<lparr>render_output_path := ''/r/{jobname}/{timestamp}/A_######''\<rparr>\<rparr>)))
           (render_output_path (job_settings
             (example_job\<lparr>job_settings := example_settings
               \<lparr>render_output_path := ''/r/{jobname}/{timestamp}/A_######''\<rparr>\<rparr>)))
   \<and> substitute_timestamp ''1204'' ''/r/{jobname}/{timestamp}/A_######''
       = ''/r/{jobname}/1204/A_######''
   \<and> renderOutputPath example_host
        (example_job\<lparr>job_settings := example_settings
           \<lparr>render_output_path := ''/r/{jobname}/{timestamp}/A_######''\<rparr>\<rparr>)
       = ''/r/{jobname}/1204/A_######''"
proof -
  let ?j = "example_job\<lparr>job_settings := example_settings
         \<lparr>render_output_path := ''/r/{jobname}/{timestamp}/A_######''\<rparr>\<rparr>"
  have u: "unnested False (render_output_path (job_settings ?j))"
    by code_simp
  have s: "substitute_timestamp ''1204'' ''/r/{jobname}/{timestamp}/A_######''
       = ''/r/{jobname}/1204/A_######''"
    by code_simp
  have r: "renderOutputPath example_host ?j = ''/r/{jobname}/1204/A_######''"
    by code_simp
  from resolution_substitutes_timestamp [OF u, of example_host] u s r
  show ?thesis by blast
qed

subsection \<open>C4: the chunks partition the frames\<close>

text \<open>
  Claim C4, for the frame chunker and the frame count of the specification:
  for every frame-range expression that parses and every chunk size of at
  least 1, the chunker returns chunks whose frames, put one after the other,
  are the parsed frames, each once and in ascending order; every chunk has at
  least one and at most \<open>chunk_size\<close> frames, every chunk but the last has
  exactly \<open>chunk_size\<close>, and \<^verbatim>\<open>authorRenderTasks\<close> returns one task for each
  chunk, whose command carries the number of frames of the chunk.  The
  example of the claim, \<open>1-5\<close> with chunk size 2, is the witness.
\<close>

theorem chunks_partition_frames:
  assumes "parse_frames (frames s) = Inr fs" and "1 \<le> chunk_size s"
  shows "\<exists>chunks groups ts.
           frameChunker_spec (frames s) (chunk_size s) = Inr chunks
         \<and> map parse_frames chunks = map Inr groups
         \<and> concat groups = fs \<and> sorted fs \<and> distinct fs
         \<and> (\<forall>g \<in> set groups. g \<noteq> [] \<and> int (length g) \<le> chunk_size s)
         \<and> (\<forall>g \<in> set (butlast groups). int (length g) = chunk_size s)
         \<and> authorRenderTasks (spec_chunking h) s rd ro = Inr ts
         \<and> list_all2 (\<lambda>g t. map command_frames (commands t) = [length g]) groups ts"
proof -
  define n where "n = nat (chunk_size s)"
  define groups where "groups = chunk_list n fs"
  have n: "0 < n" "chunk_size s = int n" using assms(2) by (simp_all add: n_def)
  have fs: "sorted fs" "distinct fs" using parse_frames_sorted [OF assms(1)] by simp_all
  have chunker: "frameChunker_spec (frames s) (chunk_size s) = Inr (map show_frames groups)"
    using assms by (simp add: frameChunker_spec_def groups_def n_def)
  have len: "\<forall>g \<in> set groups. g \<noteq> [] \<and> length g \<le> n"
    unfolding groups_def by (rule chunk_list_lengths [OF n(1)])
  have good: "\<forall>g \<in> set groups. sorted g \<and> distinct g \<and> g \<noteq> []"
    using chunk_list_sorted [OF fs, of n] len by (simp add: groups_def)
  then have parse: "map parse_frames (map show_frames groups) = map Inr groups"
    by (simp add: parse_frames_show_frames)
  from author_loop_spec [OF good, of h s rd ro "[]"] obtain ts where
    ts: "author_loop (spec_chunking h) s rd ro [] (map show_frames groups) = Inr ts"
    and all: "list_all2 (\<lambda>g t. t = render_task (spec_chunking h) s rd ro (show_frames g) (length g))
          groups ts"
    by auto
  from ts chunker have author: "authorRenderTasks (spec_chunking h) s rd ro = Inr ts"
    by (simp add: authorRenderTasks_def spec_chunking_def)
  from all have counts: "list_all2 (\<lambda>g t. map command_frames (commands t) = [length g]) groups ts"
    by (rule list_all2_mono) (simp add: render_task_frames)
  have full: "\<forall>g \<in> set (butlast groups). int (length g) = chunk_size s"
    using chunk_list_full [OF n(1), of fs] n(2) by (simp add: groups_def)
  have "concat groups = fs"
    unfolding groups_def by (rule concat_chunk_list [OF n(1)])
  with chunker parse fs len n(2) full author counts show ?thesis
    by (intro exI [of _ "map show_frames groups"] exI [of _ groups] exI [of _ ts]) simp
qed

theorem chunks_partition_frames_witness:
  "parse_frames (frames example_settings) = Inr [1, 2, 3, 4, 5]
   \<and> 1 \<le> chunk_size example_settings
   \<and> frameChunker_spec ''1-5'' 2 = Inr [''1-2'', ''3-4'', ''5'']
   \<and> map parse_frames [''1-2'', ''3-4'', ''5''] = map Inr [[1, 2], [3, 4], [5]]
   \<and> map (\<lambda>t. map command_frames (commands t))
        (projr (authorRenderTasks (spec_chunking example_host) example_settings
           ''/r'' ''/r/A_######''))
       = [[2], [2], [1]]
   \<and> (\<exists>chunks groups ts.
           frameChunker_spec (frames example_settings) (chunk_size example_settings) = Inr chunks
         \<and> map parse_frames chunks = map Inr groups
         \<and> concat groups = [1, 2, 3, 4, 5] \<and> sorted [1, 2, 3, 4, 5 :: nat]
         \<and> distinct [1, 2, 3, 4, 5 :: nat]
         \<and> (\<forall>g \<in> set groups. g \<noteq> [] \<and> int (length g) \<le> chunk_size example_settings)
         \<and> (\<forall>g \<in> set (butlast groups). int (length g) = chunk_size example_settings)
         \<and> authorRenderTasks (spec_chunking example_host) example_settings
              ''/r'' ''/r/A_######'' = Inr ts
         \<and> list_all2 (\<lambda>g t. map command_frames (commands t) = [length g]) groups ts)"
proof -
  have p: "parse_frames (frames example_settings) = Inr [1, 2, 3, 4, 5]"
    by code_simp
  have n: "1 \<le> chunk_size example_settings"
    by (simp add: example_settings_def)
  have c: "frameChunker_spec ''1-5'' 2 = Inr [''1-2'', ''3-4'', ''5'']"
    by code_simp
  have g: "map parse_frames [''1-2'', ''3-4'', ''5''] = map Inr [[1, 2], [3, 4], [5]]"
    by code_simp
  have k: "map (\<lambda>t. map command_frames (commands t))
        (projr (authorRenderTasks (spec_chunking example_host) example_settings
           ''/r'' ''/r/A_######''))
       = [[2], [2], [1]]"
    by code_simp
  from chunks_partition_frames [OF p n, of example_host "''/r''" "''/r/A_######''"] p n c g k
  show ?thesis by blast
qed

subsection \<open>C5: the arguments of a command\<close>

text \<open>
  Claim C5: \<^verbatim>\<open>authorRenderTasks\<close> returns one task for each chunk, in the
  order of the chunks, with one command whose arguments are, in this order:
  \<^verbatim>\<open>--scene\<close> and the scene name if and only if the scene name is truthy;
  \<^verbatim>\<open>--python-expr\<close> and the overwrite script if and only if
  \<^verbatim>\<open>force_overwrite\<close> is set; \<^verbatim>\<open>--render-output\<close> and the path joined
  from the render directory and the base name of the resolved path;
  \<^verbatim>\<open>--render-format\<close> and the format; \<^verbatim>\<open>--render-frame\<close> and the
  chunk with each \<open>-\<close> rewritten to \<open>..\<close>.
\<close>

theorem command_arguments_order:
  assumes "authorRenderTasks h s renderDir renderOutput = Inr ts"
  shows "\<exists>chunks. frameChunker h (frames s) (chunk_size s) = Inr chunks
         \<and> list_all2
              (\<lambda>chunk t. \<exists>c. commands t = [c]
                 \<and> args (command_parameters c) =
                     (if truthy (scene s) then [''--scene'', string_of (scene s)] else [])
                     @ (if force_overwrite s then [''--python-expr'', overwrite_script] else [])
                     @ [''--render-output'', path_join h renderDir (path_basename h renderOutput),
                        ''--render-format'', format s,
                        ''--render-frame'', replaceAll_dash chunk]
                 \<and> CHR ''-'' \<notin> set (replaceAll_dash chunk)
                 \<and> (\<forall>a b. chunk = a @ ''-'' @ b \<longrightarrow>
                        replaceAll_dash chunk = replaceAll_dash a @ ''..'' @ replaceAll_dash b))
              chunks ts"
proof -
  from authorRenderTasks_Inr [OF assms] obtain chunks where
    chunks: "frameChunker h (frames s) (chunk_size s) = Inr chunks" and
    all: "list_all2 (\<lambda>chunk t. \<exists>k. frameCount h chunk = Inr k
            \<and> t = render_task h s renderDir renderOutput chunk k) chunks ts"
    by blast
  have dash: "\<forall>a b. replaceAll_dash (a @ ''-'' @ b) = replaceAll_dash a @ ''..'' @ replaceAll_dash b"
    by (simp add: replaceAll_dash_def)
  from all have "list_all2
              (\<lambda>chunk t. \<exists>c. commands t = [c]
                 \<and> args (command_parameters c) =
                     (if truthy (scene s) then [''--scene'', string_of (scene s)] else [])
                     @ (if force_overwrite s then [''--python-expr'', overwrite_script] else [])
                     @ [''--render-output'', path_join h renderDir (path_basename h renderOutput),
                        ''--render-format'', format s,
                        ''--render-frame'', replaceAll_dash chunk]
                 \<and> CHR ''-'' \<notin> set (replaceAll_dash chunk)
                 \<and> (\<forall>a b. chunk = a @ ''-'' @ b \<longrightarrow>
                        replaceAll_dash chunk = replaceAll_dash a @ ''..'' @ replaceAll_dash b))
              chunks ts"
  proof (rule list_all2_mono)
    fix chunk t
    assume "\<exists>k. frameCount h chunk = Inr k \<and> t = render_task h s renderDir renderOutput chunk k"
    then obtain k where t: "t = render_task h s renderDir renderOutput chunk k" by blast
    have "args (command_parameters (author_Command ''blender-render''
        \<lparr>exe = ''{blender}'', exeArgs = ''{blenderArgs}'', param_blendfile = blendfile s,
         args = render_args h s renderDir renderOutput chunk\<rparr> k)) =
        (if truthy (scene s) then [''--scene'', string_of (scene s)] else [])
         @ (if force_overwrite s then [''--python-expr'', overwrite_script] else [])
         @ [''--render-output'', path_join h renderDir (path_basename h renderOutput),
            ''--render-format'', format s,
            ''--render-frame'', replaceAll_dash chunk]"
      by (simp add: author_Command_def render_args_def baseArgs_def overwriteArgs_def)
    with t dash replaceAll_dash_no_dash [of chunk]
    show "\<exists>c. commands t = [c]
                 \<and> args (command_parameters c) =
                     (if truthy (scene s) then [''--scene'', string_of (scene s)] else [])
                     @ (if force_overwrite s then [''--python-expr'', overwrite_script] else [])
                     @ [''--render-output'', path_join h renderDir (path_basename h renderOutput),
                        ''--render-format'', format s,
                        ''--render-frame'', replaceAll_dash chunk]
                 \<and> CHR ''-'' \<notin> set (replaceAll_dash chunk)
                 \<and> (\<forall>a b. chunk = a @ ''-'' @ b \<longrightarrow>
                        replaceAll_dash chunk = replaceAll_dash a @ ''..'' @ replaceAll_dash b)"
      by (simp add: render_task_fields(3))
  qed
  with chunks show ?thesis by blast
qed

theorem command_arguments_order_witness:
  "authorRenderTasks example_host example_settings ''/r'' ''/r/A_######''
     = Inr (projr (authorRenderTasks example_host example_settings ''/r'' ''/r/A_######''))
   \<and> map (\<lambda>t. map (\<lambda>c. args (command_parameters c)) (commands t))
        (projr (authorRenderTasks example_host example_settings ''/r'' ''/r/A_######''))
       = [[[''--scene'', ''Scene'', ''--python-expr'', overwrite_script,
            ''--render-output'', ''/r/A_######'', ''--render-format'', ''OPEN_EXR'',
            ''--render-frame'', ''1..2'']],
          [[''--scene'', ''Scene'', ''--python-expr'', overwrite_script,
            ''--render-output'', ''/r/A_######'', ''--render-format'', ''OPEN_EXR'',
            ''--render-frame'', ''3..4'']],
          [[''--scene'', ''Scene'', ''--python-expr'', overwrite_script,
            ''--render-output'', ''/r/A_######'', ''--render-format'', ''OPEN_EXR'',
            ''--render-frame'', ''5'']]]
   \<and> map (\<lambda>t. map (\<lambda>c. args (command_parameters c)) (commands t))
        (projr (authorRenderTasks example_host
           (example_settings\<lparr>scene := None, force_overwrite := False, frames := ''47-52'',
              chunk_size := 20\<rparr>) ''/r'' ''/r/A_######''))
       = [[[''--render-output'', ''/r/A_######'', ''--render-format'', ''OPEN_EXR'',
            ''--render-frame'', ''47..52'']]]
   \<and> (\<exists>chunks. frameChunker example_host (frames example_settings) (chunk_size example_settings)
           = Inr chunks
         \<and> list_all2
              (\<lambda>chunk t. \<exists>c. commands t = [c]
                 \<and> args (command_parameters c) =
                     (if truthy (scene example_settings)
                      then [''--scene'', string_of (scene example_settings)] else [])
                     @ (if force_overwrite example_settings
                        then [''--python-expr'', overwrite_script] else [])
                     @ [''--render-output'',
                        path_join example_host ''/r'' (path_basename example_host ''/r/A_######''),
                        ''--render-format'', format example_settings,
                        ''--render-frame'', replaceAll_dash chunk]
                 \<and> CHR ''-'' \<notin> set (replaceAll_dash chunk)
                 \<and> (\<forall>a b. chunk = a @ ''-'' @ b \<longrightarrow>
                        replaceAll_dash chunk = replaceAll_dash a @ ''..'' @ replaceAll_dash b))
              chunks
              (projr (authorRenderTasks example_host example_settings ''/r'' ''/r/A_######'')))"
proof -
  have "\<not> isl (authorRenderTasks example_host example_settings ''/r'' ''/r/A_######'')"
    by code_simp
  then have e: "authorRenderTasks example_host example_settings ''/r'' ''/r/A_######''
     = Inr (projr (authorRenderTasks example_host example_settings ''/r'' ''/r/A_######''))"
    by simp
  have a: "map (\<lambda>t. map (\<lambda>c. args (command_parameters c)) (commands t))
        (projr (authorRenderTasks example_host example_settings ''/r'' ''/r/A_######''))
       = [[[''--scene'', ''Scene'', ''--python-expr'', overwrite_script,
            ''--render-output'', ''/r/A_######'', ''--render-format'', ''OPEN_EXR'',
            ''--render-frame'', ''1..2'']],
          [[''--scene'', ''Scene'', ''--python-expr'', overwrite_script,
            ''--render-output'', ''/r/A_######'', ''--render-format'', ''OPEN_EXR'',
            ''--render-frame'', ''3..4'']],
          [[''--scene'', ''Scene'', ''--python-expr'', overwrite_script,
            ''--render-output'', ''/r/A_######'', ''--render-format'', ''OPEN_EXR'',
            ''--render-frame'', ''5'']]]"
    by code_simp
  have b: "map (\<lambda>t. map (\<lambda>c. args (command_parameters c)) (commands t))
        (projr (authorRenderTasks example_host
           (example_settings\<lparr>scene := None, force_overwrite := False, frames := ''47-52'',
              chunk_size := 20\<rparr>) ''/r'' ''/r/A_######''))
       = [[[''--render-output'', ''/r/A_######'', ''--render-format'', ''OPEN_EXR'',
            ''--render-frame'', ''47..52'']]]"
    by code_simp
  from command_arguments_order [OF e] e a b show ?thesis by blast
qed

subsection \<open>C6: video formats\<close>

text \<open>
  Claim C6: when the format is \<open>FFMPEG\<close>, \<open>AVI_RAW\<close> or \<open>AVI_JPEG\<close>, both
  variants of \<^verbatim>\<open>compileJob\<close> throw the unsupported-format error and leave
  the job as it was: no path is resolved, the setting
  \<^verbatim>\<open>render_output_path\<close> is not written and no task is added, whatever the
  functions of the host would do.
\<close>

theorem video_format_rejected:
  assumes "format (job_settings j) = ''FFMPEG'' \<or> format (job_settings j) = ''AVI_RAW''
           \<or> format (job_settings j) = ''AVI_JPEG''"
  shows "compileJob_BlenderPath h j = (j, Some UnsupportedFormat)
       \<and> compileJob_RootBased h j = (j, Some UnsupportedFormat)"
  using assms by (auto simp: compileJob_BlenderPath_def compileJob_RootBased_def videoFormats_def)

theorem video_format_rejected_witness:
  "format (job_settings (example_job\<lparr>job_settings := example_settings\<lparr>format := ''FFMPEG''\<rparr>\<rparr>))
     = ''FFMPEG''
   \<and> compileJob_BlenderPath example_host
        (example_job\<lparr>job_settings := example_settings\<lparr>format := ''FFMPEG''\<rparr>\<rparr>)
       = (example_job\<lparr>job_settings := example_settings\<lparr>format := ''FFMPEG''\<rparr>\<rparr>,
          Some UnsupportedFormat)
   \<and> compileJob_RootBased example_host
        (example_job\<lparr>job_settings := example_settings\<lparr>format := ''FFMPEG''\<rparr>\<rparr>)
       = (example_job\<lparr>job_settings := example_settings\<lparr>format := ''FFMPEG''\<rparr>\<rparr>,
          Some UnsupportedFormat)"
  using video_format_rejected
    [of "example_job\<lparr>job_settings := example_settings\<lparr>format := ''FFMPEG''\<rparr>\<rparr>" example_host]
  by simp

subsection \<open>C7: the render output root\<close>

text \<open>
  Claim C7: in BeFrames_RootBased, when the render output root is undefined
  or empty after trimming white space, \<^verbatim>\<open>compileJob\<close> leaves the job as it
  was and throws: the unsupported-format error if the format is a video
  format, since that check comes first, and the missing-setting error
  otherwise.  No path is resolved and no task is authored.
\<close>

theorem missing_root_rejected:
  assumes "render_output_root (job_settings j) = None
           \<or> (\<exists>r. render_output_root (job_settings j) = Some r \<and> trim r = [])"
  shows "compileJob_RootBased h j =
           (j, Some (if format (job_settings j) \<in> set videoFormats then UnsupportedFormat
                     else MissingRequiredSetting))"
  using assms
  by (auto simp: compileJob_RootBased_def root_missing_def truthy_def string_of_def)

theorem missing_root_rejected_witness:
  "render_output_root (job_settings
      (example_job\<lparr>job_settings := example_settings\<lparr>render_output_root := Some ''  ''\<rparr>\<rparr>))
     = Some ''  ''
   \<and> trim ''  '' = []
   \<and> compileJob_RootBased example_host
        (example_job\<lparr>job_settings := example_settings\<lparr>render_output_root := Some ''  ''\<rparr>\<rparr>)
       = (example_job\<lparr>job_settings := example_settings\<lparr>render_output_root := Some ''  ''\<rparr>\<rparr>,
          Some MissingRequiredSetting)
   \<and> compileJob_RootBased example_host
        (example_job\<lparr>job_settings := example_settings\<lparr>render_output_root := None,
           format := ''AVI_RAW''\<rparr>\<rparr>)
       = (example_job\<lparr>job_settings := example_settings\<lparr>render_output_root := None,
           format := ''AVI_RAW''\<rparr>\<rparr>,
          Some UnsupportedFormat)"
proof -
  have t: "trim ''  '' = []" by code_simp
  have f: "format example_settings \<notin> set videoFormats"
    by (simp add: example_settings_def videoFormats_def)
  from missing_root_rejected
    [of "example_job\<lparr>job_settings := example_settings\<lparr>render_output_root := Some ''  ''\<rparr>\<rparr>"
      example_host]
    missing_root_rejected
    [of "example_job\<lparr>job_settings := example_settings\<lparr>render_output_root := None,
           format := ''AVI_RAW''\<rparr>\<rparr>" example_host]
    t f
  show ?thesis by (simp add: videoFormats_def)
qed

subsection \<open>C8: the chunk size\<close>

text \<open>
  Claim C8 says that every job with a chunk size of zero or less fails with
  the invalid-chunk-size error and gets no task.

  The error is another one for a job that fails a check made before the
  chunker is called: with chunk size 0 and the format \<open>FFMPEG\<close>,
  \<^verbatim>\<open>compileJob\<close> throws the unsupported-format error.
\<close>

theorem video_format_precedes_chunk_size:
  "chunk_size (job_settings
      (example_job\<lparr>job_settings := example_settings\<lparr>chunk_size := 0, format := ''FFMPEG''\<rparr>\<rparr>)) \<le> 0
   \<and> snd (compileJob_BlenderPath (spec_chunking example_host)
        (example_job\<lparr>job_settings := example_settings\<lparr>chunk_size := 0, format := ''FFMPEG''\<rparr>\<rparr>))
       = Some UnsupportedFormat
   \<and> snd (compileJob_BlenderPath (spec_chunking example_host)
        (example_job\<lparr>job_settings := example_settings\<lparr>chunk_size := 0, format := ''FFMPEG''\<rparr>\<rparr>))
       \<noteq> Some InvalidChunkSize"
  by (simp add: compileJob_BlenderPath_def videoFormats_def)

text \<open>
  C8 as amended, for the frame chunker of the specification: every job with a
  chunk size of zero or less fails and gets no task; the error is the
  invalid-chunk-size error unless a check made earlier fails, that is the
  unsupported-format error for a video format and, in BeFrames_RootBased, the
  missing-setting error for a missing render output root.
\<close>

theorem nonpositive_chunk_size_rejected:
  assumes "chunk_size (job_settings j) \<le> 0"
  shows "snd (compileJob_BlenderPath (spec_chunking h) j)
           = Some (if format (job_settings j) \<in> set videoFormats then UnsupportedFormat
                   else InvalidChunkSize)
       \<and> tasks (fst (compileJob_BlenderPath (spec_chunking h) j)) = tasks j
       \<and> snd (compileJob_RootBased (spec_chunking h) j)
           = Some (if format (job_settings j) \<in> set videoFormats then UnsupportedFormat
                   else if root_missing (render_output_root (job_settings j))
                   then MissingRequiredSetting
                   else InvalidChunkSize)
       \<and> tasks (fst (compileJob_RootBased (spec_chunking h) j)) = tasks j"
  using resolve_and_author_rejects [OF assms, of h]
  by (simp add: compileJob_BlenderPath_def compileJob_RootBased_def)

theorem nonpositive_chunk_size_rejected_witness:
  "chunk_size (job_settings (example_job\<lparr>job_settings := example_settings\<lparr>chunk_size := 0\<rparr>\<rparr>)) \<le> 0
   \<and> snd (compileJob_BlenderPath (spec_chunking example_host)
        (example_job\<lparr>job_settings := example_settings\<lparr>chunk_size := 0\<rparr>\<rparr>))
       = Some InvalidChunkSize
   \<and> tasks (fst (compileJob_BlenderPath (spec_chunking example_host)
        (example_job\<lparr>job_settings := example_settings\<lparr>chunk_size := 0\<rparr>\<rparr>))) = []
   \<and> snd (compileJob_RootBased (spec_chunking example_host)
        (example_job\<lparr>job_settings := example_settings\<lparr>chunk_size := 0\<rparr>\<rparr>))
       = Some InvalidChunkSize
   \<and> tasks (fst (compileJob_RootBased (spec_chunking example_host)
        (example_job\<lparr>job_settings := example_settings\<lparr>chunk_size := 0\<rparr>\<rparr>))) = []"
proof -
  have f: "format example_settings \<notin> set videoFormats"
    by (simp add: example_settings_def videoFormats_def)
  have r: "\<not> root_missing (render_output_root example_settings)"
    by code_simp
  have t: "tasks example_job = []"
    by (simp add: example_job_def)
  from nonpositive_chunk_size_rejected
    [of "example_job\<lparr>job_settings := example_settings\<lparr>chunk_size := 0\<rparr>\<rparr>" example_host] f r t
  show ?thesis by simp
qed

subsection \<open>C9: all tasks or none\<close>

text \<open>
  Claim C9: in both variants, when \<^verbatim>\<open>compileJob\<close> returns, the tasks of
  the job are the tasks it had followed by one task for each chunk, in the
  order of the chunks, each named after its chunk and with exactly one
  command; when \<^verbatim>\<open>compileJob\<close> throws, the tasks of the job are the tasks
  it had.
\<close>

theorem compile_atomic:
  assumes "compile = compileJob_BlenderPath \<or> compile = compileJob_RootBased"
    and "compile h j = (j', r)"
  shows "case r of
           None \<Rightarrow> \<exists>chunks ts.
               frameChunker h (frames (job_settings j)) (chunk_size (job_settings j)) = Inr chunks
             \<and> tasks j' = tasks j @ ts
             \<and> list_all2 (\<lambda>chunk t. task_name t = ''render-'' @ chunk \<and> length (commands t) = 1)
                  chunks ts
         | Some e \<Rightarrow> tasks j' = tasks j"
proof (cases "compile h j = resolve_and_author h j")
  case True
  with assms(2) show ?thesis by (simp add: resolve_and_author_tasks)
next
  case False
  with assms have "j' = j \<and> r \<noteq> None"
    by (auto simp: compileJob_BlenderPath_def compileJob_RootBased_def split: if_splits)
  then show ?thesis by auto
qed

theorem compile_atomic_witness:
  "compileJob_BlenderPath example_host example_job
     = (fst (compileJob_BlenderPath example_host example_job), None)
   \<and> (\<exists>chunks ts.
         frameChunker example_host (frames (job_settings example_job))
           (chunk_size (job_settings example_job)) = Inr chunks
       \<and> tasks (fst (compileJob_BlenderPath example_host example_job)) = tasks example_job @ ts
       \<and> list_all2 (\<lambda>chunk t. task_name t = ''render-'' @ chunk \<and> length (commands t) = 1)
            chunks ts)
   \<and> map task_name (tasks (fst (compileJob_BlenderPath example_host example_job)))
       = [''render-1-2'', ''render-3-4'', ''render-5'']
   \<and> compileJob_RootBased example_host
        (example_job\<lparr>job_settings := example_settings\<lparr>frames := ''1-x''\<rparr>,
           tasks := [author_Task ''earlier'' ''blender'']\<rparr>)
     = (fst (compileJob_RootBased example_host
          (example_job\<lparr>job_settings := example_settings\<lparr>frames := ''1-x''\<rparr>,
             tasks := [author_Task ''earlier'' ''blender'']\<rparr>)),
        Some MalformedFrameRange)
   \<and> tasks (fst (compileJob_RootBased example_host
          (example_job\<lparr>job_settings := example_settings\<lparr>frames := ''1-x''\<rparr>,
             tasks := [author_Task ''earlier'' ''blender'']\<rparr>)))
     = [author_Task ''earlier'' ''blender'']"
proof -
  let ?bad = "example_job\<lparr>job_settings := example_settings\<lparr>frames := ''1-x''\<rparr>,
           tasks := [author_Task ''earlier'' ''blender'']\<rparr>"
  have "snd (compileJob_BlenderPath example_host example_job) = None"
    by code_simp
  then have c: "compileJob_BlenderPath example_host example_job
      = (fst (compileJob_BlenderPath example_host example_job), None)"
    by (simp add: prod_eq_iff)
  have "snd (compileJob_RootBased example_host ?bad) = Some MalformedFrameRange"
    by code_simp
  then have d: "compileJob_RootBased example_host ?bad
      = (fst (compileJob_RootBased example_host ?bad), Some MalformedFrameRange)"
    by (simp add: prod_eq_iff)
  have n: "map task_name (tasks (fst (compileJob_BlenderPath example_host example_job)))
       = [''render-1-2'', ''render-3-4'', ''render-5'']"
    by code_simp
  have t: "tasks ?bad = [author_Task ''earlier'' ''blender'']"
    by simp
  from compile_atomic [where compile = compileJob_BlenderPath and h = example_host
      and j = example_job and j' = "fst (compileJob_BlenderPath example_host example_job)"
      and r = None]
    c
  have a: "\<exists>chunks ts.
         frameChunker example_host (frames (job_settings example_job))
           (chunk_size (job_settings example_job)) = Inr chunks
       \<and> tasks (fst (compileJob_BlenderPath example_host example_job)) = tasks example_job @ ts
       \<and> list_all2 (\<lambda>chunk t. task_name t = ''render-'' @ chunk \<and> length (commands t) = 1)
            chunks ts"
    by simp
  from compile_atomic [where compile = compileJob_RootBased and h = example_host
      and j = ?bad and j' = "fst (compileJob_RootBased example_host ?bad)"
      and r = "Some MalformedFrameRange"]
    d t
  have b: "tasks (fst (compileJob_RootBased example_host ?bad))
     = [author_Task ''earlier'' ''blender'']"
    by simp
  from c a n d b show ?thesis by blast
qed

subsection \<open>C10: determinism\<close>

text \<open>
  Claim C10 says that two invocations of \<^verbatim>\<open>compileJob\<close> on jobs with equal
  settings and equal creation times give the same resolved path and the same
  tasks, the creation time being the only value read that is not an input.

  \<^verbatim>\<open>renderOutputPath\<close> passes the creation time to
  \<^verbatim>\<open>formatTimestampLocal\<close>, which writes it in the local time of the manager,
  so the time zone of the manager is read too.  The job created on
  2025-12-18 at 10:12:33 UTC gets the directory \<open>2025-12-18_10-12-33\<close> from
  a manager on UTC and \<open>2025-12-18_11-12-33\<close> from a manager one hour east
  of it, in the setting and in the \<^verbatim>\<open>--render-output\<close> argument of every
  task.
\<close>

theorem time_zone_changes_resolved_path:
  "renderOutputPath (zone_host 0) december_job
     = ''/proj/shot010/render/2025-12-18_10-12-33/Anim03_######''
   \<and> renderOutputPath (zone_host 3600) december_job
     = ''/proj/shot010/render/2025-12-18_11-12-33/Anim03_######''
   \<and> renderOutputPath (zone_host 0) december_job
     \<noteq> renderOutputPath (zone_host 3600) december_job
   \<and> snd (compileJob_BlenderPath (zone_host 0) december_job) = None
   \<and> snd (compileJob_BlenderPath (zone_host 3600) december_job) = None
   \<and> map (\<lambda>t. map (\<lambda>c. args (command_parameters c) ! 5) (commands t))
        (tasks (fst (compileJob_BlenderPath (zone_host 0) december_job)))
     = [[''/proj/shot010/render/2025-12-18_10-12-33/Anim03_######''],
        [''/proj/shot010/render/2025-12-18_10-12-33/Anim03_######''],
        [''/proj/shot010/render/2025-12-18_10-12-33/Anim03_######'']]
   \<and> map (\<lambda>t. map (\<lambda>c. args (command_parameters c) ! 5) (commands t))
        (tasks (fst (compileJob_BlenderPath (zone_host 3600) december_job)))
     = [[''/proj/shot010/render/2025-12-18_11-12-33/Anim03_######''],
        [''/proj/shot010/render/2025-12-18_11-12-33/Anim03_######''],
        [''/proj/shot010/render/2025-12-18_11-12-33/Anim03_######'']]
   \<and> render_output_path (job_settings (fst (compileJob_RootBased (zone_host 0) december_job)))
     = ''/proj/shot010/render/2025-12-18_10-12-33/Anim03_######''
   \<and> render_output_path (job_settings (fst (compileJob_RootBased (zone_host 3600) december_job)))
     = ''/proj/shot010/render/2025-12-18_11-12-33/Anim03_######''"
  by code_simp

text \<open>
  C10 as amended: in both variants, take two invocations, each with its own
  host, on two jobs with the same settings and the same creation time,
  whatever else differs between the jobs (their names, their priorities, the
  tasks they already have).  When the two hosts agree where the first
  invocation reads them, that is \<^verbatim>\<open>formatTimestampLocal\<close> at the creation
  time, \<^verbatim>\<open>frameChunker\<close> at the frames and the chunk size of the settings,
  \<^verbatim>\<open>frameCount\<close> at the chunks returned, and \<^verbatim>\<open>path.dirname\<close>,
  \<^verbatim>\<open>path.basename\<close> and \<^verbatim>\<open>path.join\<close> at the resolved path and its two
  parts, then the two invocations give the same resolved path, the same
  outcome, the same settings after compilation and the same added tasks.  In
  the witness one manager keeps one hour east of UTC all year and the other
  has summer time: they agree in December and not in June.
\<close>

theorem compile_reads:
  assumes "compile = compileJob_BlenderPath \<or> compile = compileJob_RootBased"
    and "job_settings j1 = job_settings j2"
    and "created j1 = created j2"
    and "formatTimestampLocal h1 (created j1) = formatTimestampLocal h2 (created j1)"
    and "frameChunker h1 (frames (job_settings j1)) (chunk_size (job_settings j1))
         = frameChunker h2 (frames (job_settings j1)) (chunk_size (job_settings j1))"
    and "\<forall>chunks. frameChunker h1 (frames (job_settings j1)) (chunk_size (job_settings j1))
             = Inr chunks
           \<longrightarrow> (\<forall>chunk \<in> set chunks. frameCount h1 chunk = frameCount h2 chunk)"
    and "path_dirname h1 (renderOutputPath h1 j1) = path_dirname h2 (renderOutputPath h1 j1)"
    and "path_basename h1 (renderOutputPath h1 j1) = path_basename h2 (renderOutputPath h1 j1)"
    and "path_join h1 (path_dirname h1 (renderOutputPath h1 j1))
           (path_basename h1 (renderOutputPath h1 j1))
         = path_join h2 (path_dirname h1 (renderOutputPath h1 j1))
           (path_basename h1 (renderOutputPath h1 j1))"
  shows "renderOutputPath h1 j1 = renderOutputPath h2 j2
       \<and> snd (compile h1 j1) = snd (compile h2 j2)
       \<and> job_settings (fst (compile h1 j1)) = job_settings (fst (compile h2 j2))
       \<and> drop (length (tasks j1)) (tasks (fst (compile h1 j1)))
         = drop (length (tasks j2)) (tasks (fst (compile h2 j2)))"
proof -
  let ?ro = "renderOutputPath h1 j1"
  let ?s = "(job_settings j1)\<lparr>render_output_path := ?ro\<rparr>"
  from assms(2,3,4) have ro: "?ro = renderOutputPath h2 j2"
    by (intro renderOutputPath_cong) simp_all
  have "authorRenderTasks h1 ?s (path_dirname h1 ?ro) ?ro
      = authorRenderTasks h2 ?s (path_dirname h1 ?ro) ?ro"
  proof (rule authorRenderTasks_cong)
    show "frameChunker h1 (frames ?s) (chunk_size ?s) = frameChunker h2 (frames ?s) (chunk_size ?s)"
      using assms(5) by simp
    show "\<forall>chunks. frameChunker h1 (frames ?s) (chunk_size ?s) = Inr chunks \<longrightarrow>
           (\<forall>chunk \<in> set chunks. frameCount h1 chunk = frameCount h2 chunk)"
      using assms(6) by simp
    show "path_join h1 (path_dirname h1 ?ro) (path_basename h1 ?ro)
        = path_join h2 (path_dirname h1 ?ro) (path_basename h2 ?ro)"
      using assms(8,9) by simp
  qed
  from resolve_and_author_reads [OF assms(2) ro assms(7) this] assms(1,2)
  have "snd (compile h1 j1) = snd (compile h2 j2)
       \<and> job_settings (fst (compile h1 j1)) = job_settings (fst (compile h2 j2))
       \<and> drop (length (tasks j1)) (tasks (fst (compile h1 j1)))
         = drop (length (tasks j2)) (tasks (fst (compile h2 j2)))"
    by (auto simp: compileJob_BlenderPath_def compileJob_RootBased_def)
  with ro show ?thesis by simp
qed

theorem compile_reads_witness:
  "job_settings december_job
     = job_settings (december_job\<lparr>job_name := ''Again'', priority := 10,
         tasks := [author_Task ''earlier'' ''blender'']\<rparr>)
   \<and> created december_job
     = created (december_job\<lparr>job_name := ''Again'', priority := 10,
         tasks := [author_Task ''earlier'' ''blender'']\<rparr>)
   \<and> formatTimestampLocal (zone_host 3600) (created december_job) = ''2025-12-18_11-12-33''
   \<and> formatTimestampLocal summer_host (created december_job) = ''2025-12-18_11-12-33''
   \<and> formatTimestampLocal (zone_host 3600) 1782000000 = ''2026-06-21_01-00-00''
   \<and> formatTimestampLocal summer_host 1782000000 = ''2026-06-21_02-00-00''
   \<and> frameChunker (zone_host 3600) (frames (job_settings december_job))
        (chunk_size (job_settings december_job)) = Inr [''1-2'', ''3-4'', ''5'']
   \<and> frameChunker summer_host (frames (job_settings december_job))
        (chunk_size (job_settings december_job)) = Inr [''1-2'', ''3-4'', ''5'']
   \<and> map (frameCount (zone_host 3600)) [''1-2'', ''3-4'', ''5''] = [Inr 2, Inr 2, Inr 1]
   \<and> map (frameCount summer_host) [''1-2'', ''3-4'', ''5''] = [Inr 2, Inr 2, Inr 1]
   \<and> renderOutputPath (zone_host 3600) december_job
     = ''/proj/shot010/render/2025-12-18_11-12-33/Anim03_######''
   \<and> path_dirname (zone_host 3600) ''/proj/shot010/render/2025-12-18_11-12-33/Anim03_######''
     = ''/proj/shot010/render/2025-12-18_11-12-33''
   \<and> path_dirname summer_host ''/proj/shot010/render/2025-12-18_11-12-33/Anim03_######''
     = ''/proj/shot010/render/2025-12-18_11-12-33''
   \<and> path_basename (zone_host 3600) ''/proj/shot010/render/2025-12-18_11-12-33/Anim03_######''
     = ''Anim03_######''
   \<and> path_basename summer_host ''/proj/shot010/render/2025-12-18_11-12-33/Anim03_######''
     = ''Anim03_######''
   \<and> path_join (zone_host 3600) ''/proj/shot010/render/2025-12-18_11-12-33'' ''Anim03_######''
     = ''/proj/shot010/render/2025-12-18_11-12-33/Anim03_######''
   \<and> path_join summer_host ''/proj/shot010/render/2025-12-18_11-12-33'' ''Anim03_######''
     = ''/proj/shot010/render/2025-12-18_11-12-33/Anim03_######''
   \<and> renderOutputPath (zone_host 3600) december_job
     = renderOutputPath summer_host (december_job\<lparr>job_name := ''Again'', priority := 10,
         tasks := [author_Task ''earlier'' ''blender'']\<rparr>)
   \<and> snd (compileJob_RootBased (zone_host 3600) december_job)
     = snd (compileJob_RootBased summer_host (december_job\<lparr>job_name := ''Again'',
         priority := 10, tasks := [author_Task ''earlier'' ''blender'']\<rparr>))
   \<and> job_settings (fst (compileJob_RootBased (zone_host 3600) december_job))
     = job_settings (fst (compileJob_RootBased summer_host
         (december_job\<lparr>job_name := ''Again'', priority := 10,
            tasks := [author_Task ''earlier'' ''blender'']\<rparr>)))
   \<and> drop (length (tasks december_job))
        (tasks (fst (compileJob_RootBased (zone_host 3600) december_job)))
     = drop (length (tasks (december_job\<lparr>job_name := ''Again'', priority := 10,
            tasks := [author_Task ''earlier'' ''blender'']\<rparr>)))
         (tasks (fst (compileJob_RootBased summer_host
           (december_job\<lparr>job_name := ''Again'', priority := 10,
              tasks := [author_Task ''earlier'' ''blender'']\<rparr>))))
   \<and> map task_name (tasks (fst (compileJob_RootBased summer_host
           (december_job\<lparr>job_name := ''Again'', priority := 10,
              tasks := [author_Task ''earlier'' ''blender'']\<rparr>))))
     = [''earlier'', ''render-1-2'', ''render-3-4'', ''render-5'']"
proof -
  let ?h1 = "zone_host 3600"
  let ?h2 = summer_host
  let ?j2 = "december_job\<lparr>job_name := ''Again'', priority := 10,
         tasks := [author_Task ''earlier'' ''blender'']\<rparr>"
  let ?ro = "''/proj/shot010/render/2025-12-18_11-12-33/Anim03_######''"
  let ?rd = "''/proj/shot010/render/2025-12-18_11-12-33''"
  have s: "job_settings december_job = job_settings ?j2" by simp
  have c: "created december_job = created ?j2" by simp
  have f1: "formatTimestampLocal ?h1 (created december_job) = ''2025-12-18_11-12-33''"
    by code_simp
  have f2: "formatTimestampLocal ?h2 (created december_job) = ''2025-12-18_11-12-33''"
    by code_simp
  have g1: "formatTimestampLocal ?h1 1782000000 = ''2026-06-21_01-00-00''" by code_simp
  have g2: "formatTimestampLocal ?h2 1782000000 = ''2026-06-21_02-00-00''" by code_simp
  have k1: "frameChunker ?h1 (frames (job_settings december_job))
        (chunk_size (job_settings december_job)) = Inr [''1-2'', ''3-4'', ''5'']"
    by code_simp
  have k2: "frameChunker ?h2 (frames (job_settings december_job))
        (chunk_size (job_settings december_job)) = Inr [''1-2'', ''3-4'', ''5'']"
    by code_simp
  have n1: "map (frameCount ?h1) [''1-2'', ''3-4'', ''5''] = [Inr 2, Inr 2, Inr 1]"
    by code_simp
  have n2: "map (frameCount ?h2) [''1-2'', ''3-4'', ''5''] = [Inr 2, Inr 2, Inr 1]"
    by code_simp
  have r: "renderOutputPath ?h1 december_job = ?ro" by code_simp
  have d1: "path_dirname ?h1 ?ro = ?rd" by code_simp
  have d2: "path_dirname ?h2 ?ro = ?rd" by code_simp
  have b1: "path_basename ?h1 ?ro = ''Anim03_######''" by code_simp
  have b2: "path_basename ?h2 ?ro = ''Anim03_######''" by code_simp
  have p1: "path_join ?h1 ?rd ''Anim03_######'' = ?ro" by code_simp
  have p2: "path_join ?h2 ?rd ''Anim03_######'' = ?ro" by code_simp
  have t: "map task_name (tasks (fst (compileJob_RootBased ?h2 ?j2)))
     = [''earlier'', ''render-1-2'', ''render-3-4'', ''render-5'']"
    by code_simp
  have h4: "formatTimestampLocal ?h1 (created december_job)
      = formatTimestampLocal ?h2 (created december_job)"
    using f1 f2 by simp
  have h5: "frameChunker ?h1 (frames (job_settings december_job))
        (chunk_size (job_settings december_job))
      = frameChunker ?h2 (frames (job_settings december_job))
        (chunk_size (job_settings december_job))"
    using k1 k2 by simp
  have h6: "\<forall>chunks. frameChunker ?h1 (frames (job_settings december_job))
        (chunk_size (job_settings december_job)) = Inr chunks
      \<longrightarrow> (\<forall>chunk \<in> set chunks. frameCount ?h1 chunk = frameCount ?h2 chunk)"
    using n1 n2 by (simp add: k1)
  have h7: "path_dirname ?h1 (renderOutputPath ?h1 december_job)
      = path_dirname ?h2 (renderOutputPath ?h1 december_job)"
    using d1 d2 by (simp add: r)
  have h8: "path_basename ?h1 (renderOutputPath ?h1 december_job)
      = path_basename ?h2 (renderOutputPath ?h1 december_job)"
    using b1 b2 by (simp add: r)
  have h9: "path_join ?h1 (path_dirname ?h1 (renderOutputPath ?h1 december_job))
           (path_basename ?h1 (renderOutputPath ?h1 december_job))
      = path_join ?h2 (path_dirname ?h1 (renderOutputPath ?h1 december_job))
           (path_basename ?h1 (renderOutputPath ?h1 december_job))"
    using p1 p2 by (simp add: r d1 b1)
  from compile_reads [where compile = compileJob_RootBased and ?h1.0 = ?h1 and ?h2.0 = ?h2,
      OF _ s c h4 h5 h6 h7 h8 h9]
    s c f1 f2 g1 g2 k1 k2 n1 n2 r d1 d2 b1 b2 p1 p2 t
  show ?thesis by blast
qed

end
